theory Spec2Isabelle
  imports Main "HOL-Library.Word" "HOL-Library.Sublist" "HOL-Library.Multiset"
begin

unbundle bit_operations_syntax

section \<open>JavaScript strings\<close>

text \<open>
  A JavaScript string is a sequence of UTF-16 code units; \<open>length\<close>, \<open>substring\<close>,
  \<open>trim\<close> and a regular expression without the \<open>u\<close> flag all work on code units.
\<close>

type_synonym jschar = "16 word"
type_synonym jsstring = "jschar list"

definition js :: "string \<Rightarrow> jsstring" where
  "js s = map of_char s"

text \<open>The character class \<open>[.!?]\<close> of the sentence pattern.\<close>

definition isTerminator :: "jschar \<Rightarrow> bool" where
  "isTerminator c \<longleftrightarrow> c = 0x2E \<or> c = 0x21 \<or> c = 0x3F"

text \<open>
  What \<open>String.prototype.trim\<close> strips: the WhiteSpace and LineTerminator code points of
  ECMAScript (TAB, LF, VT, FF, CR, SP, NBSP, U+1680, U+2000..U+200A, U+2028, U+2029,
  U+202F, U+205F, U+3000, U+FEFF).
\<close>

definition isWhiteSpace :: "jschar \<Rightarrow> bool" where
  "isWhiteSpace c \<longleftrightarrow>
     c \<in> set [0x09, 0x0A, 0x0B, 0x0C, 0x0D, 0x20, 0xA0, 0x1680,
              0x2000, 0x2001, 0x2002, 0x2003, 0x2004, 0x2005, 0x2006, 0x2007,
              0x2008, 0x2009, 0x200A, 0x2028, 0x2029, 0x202F, 0x205F, 0x3000, 0xFEFF]"

definition trim :: "jsstring \<Rightarrow> jsstring" where
  "trim s = rev (dropWhile isWhiteSpace (rev (dropWhile isWhiteSpace s)))"

text \<open>
  \<open>s.substring(a, b)\<close>: both indices are clamped to the length and swapped when out of
  order.
\<close>

definition substring :: "jsstring \<Rightarrow> nat \<Rightarrow> nat \<Rightarrow> jsstring" where
  "substring s a b =
     (let a' = min a (length s); b' = min b (length s);
          lo = min a' b'; hi = max a' b'
      in take (hi - lo) (drop lo s))"

section \<open>The sentence pattern \<open>/[^.!?]+[.!?]+/g\<close>\<close>

text \<open>
  \<open>[.!?]+\<close> at the start of \<open>s\<close>: the greedy run of terminators, which must not be
  empty. Nothing follows it in the pattern, so the longest run is the match.
  The result is the matched text and the rest of the input.
\<close>

definition matchTerminators :: "jsstring \<Rightarrow> (jsstring \<times> jsstring) option" where
  "matchTerminators s =
     (let m = takeWhile isTerminator s
      in if m = [] then None else Some (m, dropWhile isTerminator s))"

text \<open>
  \<open>[^.!?]+\<close> is greedy and backtracks: with \<open>k\<close> characters taken it tries the rest of
  the pattern, and gives one character back when that fails, down to one character.
\<close>

fun backtrack :: "nat \<Rightarrow> jsstring \<Rightarrow> (jsstring \<times> jsstring) option" where
  "backtrack 0 s = None"
| "backtrack (Suc k) s =
     (case matchTerminators (drop (Suc k) s) of
        Some (m, rest) \<Rightarrow> Some (take (Suc k) s @ m, rest)
      | None \<Rightarrow> backtrack k s)"

definition matchSentenceAt :: "jsstring \<Rightarrow> (jsstring \<times> jsstring) option" where
  "matchSentenceAt s = backtrack (length (takeWhile (\<lambda>c. \<not> isTerminator c) s)) s"

text \<open>One \<open>exec\<close> of the pattern: the first start position at which it matches.\<close>

fun regexExec :: "jsstring \<Rightarrow> (jsstring \<times> jsstring) option" where
  "regexExec [] = None"
| "regexExec (c # s) =
     (case matchSentenceAt (c # s) of
        Some r \<Rightarrow> Some r
      | None \<Rightarrow> regexExec s)"

text \<open>
  \<open>text.match(/[^.!?]+[.!?]+/g) || []\<close>: every match, each search starting where the
  previous match ended.
\<close>

function matchSentences :: "jsstring \<Rightarrow> jsstring list" where
  "matchSentences s =
     (case regexExec s of
        None \<Rightarrow> []
      | Some (m, rest) \<Rightarrow> m # matchSentences rest)"
  by pat_completeness auto
termination
proof (relation "measure length")
  show "wf (measure length)" by simp
next
  fix s :: jsstring and r m rest
  assume exec: "regexExec s = Some r" and r: "(m, rest) = r"
  have bt: "length rest' < length t"
    if "backtrack k t = Some (m', rest')" and "k \<le> length t" for k t m' rest'
    using that
  proof (induction k)
    case 0
    then show ?case by simp
  next
    case (Suc k)
    show ?case
    proof (cases "matchTerminators (drop (Suc k) t)")
      case None
      with Suc show ?thesis by simp
    next
      case (Some q)
      with Suc.prems(1) have "rest' = dropWhile isTerminator (drop (Suc k) t)"
        by (auto simp: matchTerminators_def Let_def split: if_splits prod.splits)
      then have "length rest' \<le> length t - Suc k"
        using length_dropWhile_le [of isTerminator "drop (Suc k) t"] by simp
      with Suc.prems(2) show ?thesis by simp
    qed
  qed
  have at: "length rest' < length t" if "matchSentenceAt t = Some (m', rest')" for t m' rest'
    using that unfolding matchSentenceAt_def
    by (rule bt) (simp add: length_takeWhile_le)
  have ex: "length rest' < length t" if "regexExec t = Some (m', rest')" for t m' rest'
    using that
  proof (induction t)
    case Nil
    then show ?case by simp
  next
    case (Cons c t)
    show ?case
    proof (cases "matchSentenceAt (c # t)")
      case None
      with Cons show ?thesis by simp
    next
      case (Some q)
      with Cons.prems have "matchSentenceAt (c # t) = Some (m', rest')" by simp
      then show ?thesis by (rule at)
    qed
  qed
  from exec r have "length rest < length s" by (auto intro: ex)
  then show "(rest, s) \<in> measure length" by simp
qed

declare matchSentences.simps [simp del]

section \<open>splitTextIntoChunks\<close>

text \<open>
  The loop that cuts a string into pieces of \<open>maxLength\<close> code units; the source has it
  twice, over \<open>text\<close> and over \<open>trimmedSentence\<close>:
  \<^verbatim>\<open>while (i < text.length) { chunks.push(text.substring(i, i + maxLength)); i += maxLength; }\<close>
  With \<open>maxLength = 0\<close> it never ends, so the loop is a partial function and \<open>None\<close>
  is "does not return". \<open>maxLength\<close> is a natural number here: the one call in the
  repository passes 4800.
\<close>

partial_function (option) chunkWhile ::
  "jsstring \<Rightarrow> nat \<Rightarrow> nat \<Rightarrow> jsstring list \<Rightarrow> jsstring list option" where
  "chunkWhile text maxLength i chunks =
     (if i < length text
      then chunkWhile text maxLength (i + maxLength)
             (chunks @ [substring text i (i + maxLength)])
      else Some chunks)"

declare chunkWhile.simps [code]

text \<open>
  The body of \<open>for (const sentence of sentences)\<close>, on the loop state
  \<open>(chunks, currentChunk)\<close>.
\<close>

fun forSentences ::
  "nat \<Rightarrow> jsstring list \<Rightarrow> jsstring list \<times> jsstring \<Rightarrow> (jsstring list \<times> jsstring) option" where
  "forSentences maxLength [] st = Some st"
| "forSentences maxLength (sentence # sentences) (chunks, currentChunk) =
     (let trimmedSentence = trim sentence in
      if length trimmedSentence = 0 then forSentences maxLength sentences (chunks, currentChunk)
      else if length trimmedSentence > maxLength then
        (case chunkWhile trimmedSentence maxLength 0
                (if length currentChunk > 0 then chunks @ [currentChunk] else chunks) of
           None \<Rightarrow> None
         | Some chunks' \<Rightarrow> forSentences maxLength sentences (chunks', []))
      else if length (currentChunk @ js '' '' @ trimmedSentence) > maxLength then
        forSentences maxLength sentences (chunks @ [currentChunk], trimmedSentence)
      else
        forSentences maxLength sentences
          (chunks, currentChunk @ (if length currentChunk > 0 then js '' '' else []) @ trimmedSentence))"

definition splitTextIntoChunks :: "jsstring \<Rightarrow> nat \<Rightarrow> jsstring list option" where
  "splitTextIntoChunks text maxLength =
     (let sentences = matchSentences text in
      if length sentences = 0 then
        (if length text > maxLength then chunkWhile text maxLength 0 []
         else Some (if text \<noteq> [] then [text] else []))
      else
        (case forSentences maxLength sentences ([], []) of
           None \<Rightarrow> None
         | Some (chunks, currentChunk) \<Rightarrow>
             Some (if length currentChunk > 0 then chunks @ [currentChunk] else chunks)))"

section \<open>Types of the application\<close>

text \<open>
  Modelled from the spec: the enum \<open>ResponseMode\<close> of \<open>types.ts\<close>, which is not among the
  sources. The spec names three kinds of analysis (concise summary, exhaustive summary,
  bullet key points); the code calls them \<open>Resumido\<close>, \<open>Completo\<close> and \<open>PuntosClave\<close>.
\<close>

datatype ResponseMode = Resumido | Completo | PuntosClave

text \<open>The union type \<open>'es' | 'en'\<close>.\<close>

datatype language = Es | En

text \<open>The type \<open>'paste' | 'upload'\<close> of \<open>inputMode\<close>.\<close>

datatype inputMode = Paste | Upload

text \<open>
  What a \<open>catch\<close> can receive: an \<open>Error\<close> object with its message, a bare string
  (\<open>extractTextFromPdf\<close> rejects with strings), or any other value.
\<close>

datatype exn = ErrorObject jsstring | StringValue jsstring | OtherValue

type_synonym bytes = "8 word list"

type_synonym AnalysisResults = "ResponseMode \<rightharpoonup> jsstring"

record blob =
  blobParts :: "bytes list"
  blobType :: jsstring

record appState =
  documentText :: jsstring
  fileName :: jsstring
  analysisResults :: "AnalysisResults option"
  translatedResults :: "AnalysisResults option"
  activeTab :: ResponseMode
  displayedLanguage :: language
  audioSrc :: "jsstring option"
  audioBlob :: "(blob \<times> language) option"
  isAnalyzing :: bool
  isGeneratingAudio :: bool
  generationProgress :: "jsstring option"
  isTranslating :: bool
  isParsingPdf :: bool
  error :: "jsstring option"
  warning :: "jsstring option"
  isProcessed :: bool
  inputMode :: inputMode
  isPdfJsReady :: bool
  isLameJsReady :: bool
  fileInputValue :: "jsstring option"

text \<open>
  \<open>fileInputValue\<close> is \<open>fileInputRef.current.value\<close>, \<open>None\<close> while the ref is not
  attached. The initial state of the component:
\<close>

definition initialState :: appState where
  "initialState =
     \<lparr>documentText = [], fileName = [], analysisResults = None, translatedResults = None,
      activeTab = Resumido, displayedLanguage = Es, audioSrc = None, audioBlob = None,
      isAnalyzing = False, isGeneratingAudio = False, generationProgress = None,
      isTranslating = False, isParsingPdf = False, error = None, warning = None,
      isProcessed = False, inputMode = Paste, isPdfJsReady = False, isLameJsReady = False,
      fileInputValue = None\<rparr>"

section \<open>The environment\<close>

text \<open>
  A call of \<open>ai.models.generateContent\<close>: the request sent, and what the service answers.
  Of the response the code reads \<open>response.text\<close>, \<open>response.promptFeedback?.blockReason\<close>
  and \<open>response.candidates?.[0]?.content?.parts?.[0]?.inlineData?.data\<close>.
\<close>

record request =
  model :: jsstring
  contents :: jsstring
  voiceName :: "jsstring option"

record response =
  responseText :: "jsstring option"
  blockReason :: "jsstring option"
  inlineData :: "jsstring option"

text \<open>
  The service answers after \<open>latency\<close> time units, with a rejection or a response.
\<close>

record reply =
  latency :: nat
  outcome :: "exn + response"

record inputFile =
  fileType :: jsstring
  name :: jsstring

text \<open>
  Everything outside the repository that the code calls: the hosted model, the browser
  and the two libraries loaded from the CDN (\<open>pdfjsLib\<close>, \<open>lamejs\<close>). \<open>'e\<close> is the state
  of an \<open>Mp3Encoder\<close> object. \<open>getDocument\<close> gives the pages of a PDF, each with the
  \<open>str\<close> of its text items (\<open>None\<close>: the promise rejects). \<open>modeLabel\<close> is the string
  value of a \<open>ResponseMode\<close>. \<open>cleanTextForSpeech\<close> is the cleaning function that
  \<open>generateSpeech\<close> applies: the handlers take it from this record, so that what is
  proved of them holds for any cleaning function; the function of the service module
  itself is \<open>cleanTextForSpeech_src\<close> below.
\<close>

record 'e platform =
  generateContent :: "request \<Rightarrow> reply"
  cleanTextForSpeech :: "jsstring \<Rightarrow> jsstring"
  modeLabel :: "ResponseMode \<Rightarrow> jsstring"
  toLowerCase :: "jsstring \<Rightarrow> jsstring"
  atob :: "jsstring \<Rightarrow> exn + jsstring"
  Mp3Encoder :: "nat \<Rightarrow> nat \<Rightarrow> nat \<Rightarrow> 'e"
  encodeBuffer :: "'e \<Rightarrow> 16 word list \<Rightarrow> bytes \<times> 'e"
  flush :: "'e \<Rightarrow> bytes"
  createObjectURL :: "blob \<Rightarrow> jsstring"
  readAsText :: "inputFile \<Rightarrow> jsstring option"
  readAsArrayBuffer :: "inputFile \<Rightarrow> bytes option"
  getDocument :: "bytes \<Rightarrow> jsstring list option list option"

section \<open>Promises\<close>

text \<open>
  The promise an \<open>async\<close> service function returns: the API request it has begun (if it
  got that far), the time at which it settles, counted from the call, and how it settles.
\<close>

record 'a promise =
  requested :: "request option"
  settledAt :: nat
  result :: "exn + 'a"

fun rejections :: "'a promise list \<Rightarrow> (nat \<times> exn) list" where
  "rejections [] = []"
| "rejections (p # ps) =
     (case result p of
        Inl e \<Rightarrow> (settledAt p, e) # rejections ps
      | Inr v \<Rightarrow> rejections ps)"

fun fulfilments :: "'a promise list \<Rightarrow> 'a list" where
  "fulfilments [] = []"
| "fulfilments (p # ps) =
     (case result p of
        Inl e \<Rightarrow> fulfilments ps
      | Inr v \<Rightarrow> v # fulfilments ps)"

text \<open>
  \<open>await Promise.all(promises)\<close>: the values in the order of the array when every
  promise fulfils, otherwise the reason of the promise that rejects first.
\<close>

definition promiseAll :: "'a promise list \<Rightarrow> exn + 'a list" where
  "promiseAll ps =
     (case sort_key fst (rejections ps) of
        [] \<Rightarrow> Inr (fulfilments ps)
      | (t, e) # later \<Rightarrow> Inl e)"

text \<open>
  What is seen at the API while a handler runs. \<open>xs.map(f)\<close> with an \<open>async\<close> function
  \<open>f\<close> calls \<open>f\<close> on every element before any of the promises is awaited, and each call
  runs up to its first \<open>await\<close>, which is the call of \<open>generateContent\<close>. So the requests
  of the array all begin, in the order of the array, and then end in the order of their
  latencies. Where the end of the handler falls among these events is not in the trace:
  \<open>await Promise.all(...)\<close> throws at the first rejection, and then \<open>catch\<close> and \<open>finally\<close>
  run while the other requests are in flight.
\<close>

datatype event = RequestBegin request | RequestEnd request

fun pending :: "'a promise list \<Rightarrow> (nat \<times> request) list" where
  "pending [] = []"
| "pending (p # ps) =
     (case requested p of
        None \<Rightarrow> pending ps
      | Some r \<Rightarrow> (settledAt p, r) # pending ps)"

definition traceOf :: "'a promise list \<Rightarrow> event list" where
  "traceOf ps =
     map (RequestBegin \<circ> snd) (pending ps) @ map (RequestEnd \<circ> snd) (sort_key fst (pending ps))"

text \<open>
  The number of requests in flight after each event; a trace is sequential when they are
  never more than one.
\<close>

fun inFlight :: "nat \<Rightarrow> event list \<Rightarrow> nat list" where
  "inFlight n [] = []"
| "inFlight n (RequestBegin r # es) = Suc n # inFlight (Suc n) es"
| "inFlight n (RequestEnd r # es) = (n - 1) # inFlight (n - 1) es"

definition sequential :: "event list \<Rightarrow> bool" where
  "sequential es \<longleftrightarrow> list_all (\<lambda>n. n \<le> 1) (inFlight 0 es)"

section \<open>The service module\<close>

definition getAnalysisPrompt :: "ResponseMode \<Rightarrow> jsstring" where
  "getAnalysisPrompt mode =
     (case mode of
        Resumido \<Rightarrow>
          js ''Genera un resumen conciso y breve del siguiente texto, capturando '' @
            js ''las ideas principales en uno o dos p'' @ [0xE1] @ js ''rrafos.''
      | Completo \<Rightarrow>
          js ''Act'' @ [0xFA] @
            js ''a como un experto en la materia del siguiente texto. Tu tarea '' @
            js ''es crear un resumen sumamente completo y exhaustivo que sirva '' @
            js ''como material de estudio. Desarrolla en profundidad todos los '' @
            js ''conceptos y puntos clave, sin omitir ning'' @ [0xFA] @
            js ''n detalle relevante. Incluye insights y an'' @ [0xE1] @
            js ''lisis adicionales que aporten valor y faciliten la comprensi'' @
            [0xF3] @ js ''n total del tema. La estructura debe ser clara, l'' @
            [0xF3] @ js ''gica y did'' @ [0xE1] @
            js ''ctica, utilizando encabezados y p'' @ [0xE1] @
            js ''rrafos para organizar la informaci'' @ [0xF3] @ js ''n.''
      | PuntosClave \<Rightarrow>
          js ''Extrae los puntos clave o las ideas m'' @ [0xE1] @
            js ''s importantes del siguiente texto. Presenta los resultados en '' @
            js ''una lista con vi'' @ [0xF1] @
            js ''etas, donde cada punto sea claro y directo.'')"

definition textModel :: jsstring where
  "textModel = js ''gemini-2.5-flash''"

definition inicioDelTexto :: jsstring where
  "inicioDelTexto = [0x0A, 0x0A] @ js ''--- INICIO DEL TEXTO ---'' @ [0x0A, 0x0A]"

definition finDelTexto :: jsstring where
  "finDelTexto = [0x0A, 0x0A] @ js ''--- FIN DEL TEXTO ---''"

definition generateTextAnalysis ::
  "'e platform \<Rightarrow> jsstring \<Rightarrow> ResponseMode \<Rightarrow> jsstring promise" where
  "generateTextAnalysis p text mode =
     (let prompt = getAnalysisPrompt mode;
          req = \<lparr>model = textModel,
                 contents = prompt @ inicioDelTexto @ text @ finDelTexto,
                 voiceName = None\<rparr>;
          rep = generateContent p req
      in \<lparr>requested = Some req, settledAt = latency rep,
          result =
            (case outcome rep of
               Inl e \<Rightarrow> Inl e
             | Inr r \<Rightarrow>
                 (case responseText r of
                    None \<Rightarrow>
                      Inl (ErrorObject
                        (js ''La respuesta de la API para el modo '' @ [0x22] @ modeLabel p mode @
                         [0x22] @ js '' no contiene texto.''))
                  | Some resultText \<Rightarrow> Inr resultText))\<rparr>)"

definition translateText :: "'e platform \<Rightarrow> jsstring \<Rightarrow> jsstring promise" where
  "translateText p text =
     (let prompt =
            js ''Traduce el siguiente texto de espa'' @ [0xF1] @ js ''ol a ingl'' @
              [0xE9] @ js ''s. Mant'' @ [0xE9] @
              js ''n el formato y el tono del texto original.'' @
            inicioDelTexto @ text @ finDelTexto;
          req = \<lparr>model = textModel, contents = prompt, voiceName = None\<rparr>;
          rep = generateContent p req
      in \<lparr>requested = Some req, settledAt = latency rep,
          result =
            (case outcome rep of
               Inl e \<Rightarrow> Inl e
             | Inr r \<Rightarrow>
                 (case responseText r of
                    None \<Rightarrow>
                      Inl (ErrorObject
                        (js ''La respuesta de la API para la traducci'' @ [0xF3] @
                           js ''n no contiene texto.''))
                  | Some resultText \<Rightarrow> Inr resultText))\<rparr>)"

text \<open>
  A string is truthy when it is there and not empty; \<open>truthy\<close> keeps a truthy string.
\<close>

definition truthy :: "jsstring option \<Rightarrow> jsstring option" where
  "truthy v = (case v of None \<Rightarrow> None | Some s \<Rightarrow> if s = [] then None else Some s)"

definition generateSpeech :: "'e platform \<Rightarrow> jsstring \<Rightarrow> language \<Rightarrow> jsstring promise" where
  "generateSpeech p text lang =
     (let cleanedText = cleanTextForSpeech p text in
      if cleanedText = [] then
        \<lparr>requested = None, settledAt = 0,
         result = Inl (ErrorObject
           (js ''Text is empty after cleaning, cannot generate speech.''))\<rparr>
      else
        (let voice = (if lang = Es then js ''Kore'' else js ''Zephyr'');
             instruction =
               (if lang = Es then
                  js ''Tu '' @ [0xFA] @
                    js ''nica tarea es leer en voz alta el siguiente texto de forma clara '' @
                    js ''y natural. No a'' @ [0xF1] @
                    js ''adas introducciones ni comentarios. Solo lee el texto proporcionado. '' @
                    js ''Texto a leer:''
                else
                  js ''Your only task is to read the following text aloud clearly and '' @
                    js ''naturally. Do not add any introductions or comments. Just read '' @
                    js ''the provided text. Text to read:'');
             prompt = instruction @ [0x0A, 0x0A, 0x22] @ cleanedText @ [0x22];
             req = \<lparr>model = js ''gemini-2.5-flash-preview-tts'', contents = prompt,
                    voiceName = Some voice\<rparr>;
             rep = generateContent p req
         in \<lparr>requested = Some req, settledAt = latency rep,
             result =
               (case outcome rep of
                  Inl e \<Rightarrow> Inl e
                | Inr r \<Rightarrow>
                    (case truthy (blockReason r) of
                       Some reason \<Rightarrow>
                         Inl (ErrorObject
                           (js ''Speech generation was blocked due to: '' @ reason))
                     | None \<Rightarrow>
                         (case truthy (inlineData r) of
                            None \<Rightarrow> Inl (ErrorObject (js ''No audio data received from API.''))
                          | Some base64Audio \<Rightarrow> Inr base64Audio)))\<rparr>))"

subsection \<open>cleanTextForSpeech\<close>

text \<open>
  \<open>generateSpeech\<close> takes the cleaning function from the environment record. This is
  the function of the service module itself: eight \<open>replace\<close> calls with global
  patterns, then \<open>trim\<close>.

  The code points after which \<open>^\<close> matches, and before which \<open>$\<close> matches, under the
  \<open>m\<close> flag:
\<close>

definition isLineTerminator :: "jschar \<Rightarrow> bool" where
  "isLineTerminator c \<longleftrightarrow> c = 0x0A \<or> c = 0x0D \<or> c = 0x2028 \<or> c = 0x2029"

text \<open>
  A pattern is matched at the start of a string and gives the number of code units of
  the match. The pieces of a pattern take the rest of the pattern as an argument, so that
  a piece can give characters back when the rest fails. \<open>tryTake k least rest s\<close> takes
  \<open>k\<close> code units, then \<open>k - 1\<close>, down to \<open>least\<close>, until \<open>rest\<close> matches.
\<close>

primrec tryTake :: "nat \<Rightarrow> nat \<Rightarrow> (jsstring \<Rightarrow> nat option) \<Rightarrow> jsstring \<Rightarrow> nat option" where
  "tryTake 0 least rest s = (if least = 0 then rest s else None)"
| "tryTake (Suc k) least rest s =
     (if Suc k < least then None
      else case rest (drop (Suc k) s) of
             Some n \<Rightarrow> Some (Suc k + n)
           | None \<Rightarrow> tryTake k least rest s)"

text \<open>
  A greedy repetition of a character class, \<open>cls{least,most}\<close>; \<open>most = None\<close> for \<open>+\<close>
  and \<open>*\<close>.
\<close>

definition repeated ::
  "(jschar \<Rightarrow> bool) \<Rightarrow> nat \<Rightarrow> nat option \<Rightarrow> (jsstring \<Rightarrow> nat option) \<Rightarrow> jsstring \<Rightarrow> nat option" where
  "repeated cls least most rest s =
     (let run = length (takeWhile cls s);
          k = (case most of None \<Rightarrow> run | Some m \<Rightarrow> min m run)
      in tryTake k least rest s)"

definition literal :: "jsstring \<Rightarrow> (jsstring \<Rightarrow> nat option) \<Rightarrow> jsstring \<Rightarrow> nat option" where
  "literal lit rest s =
     (if take (length lit) s = lit
      then (case rest (drop (length lit) s) of
              Some n \<Rightarrow> Some (length lit + n)
            | None \<Rightarrow> None)
      else None)"

text \<open>An alternation: the first alternative with which the whole pattern matches.\<close>

fun firstOf :: "(jsstring \<Rightarrow> nat option) list \<Rightarrow> jsstring \<Rightarrow> nat option" where
  "firstOf [] s = None"
| "firstOf (alt # alts) s = (case alt s of Some n \<Rightarrow> Some n | None \<Rightarrow> firstOf alts s)"

text \<open>\<open>$\<close> under the \<open>m\<close> flag, and the end of a pattern.\<close>

definition endOfLine :: "(jsstring \<Rightarrow> nat option) \<Rightarrow> jsstring \<Rightarrow> nat option" where
  "endOfLine rest s = (case s of [] \<Rightarrow> rest s | c # s' \<Rightarrow> if isLineTerminator c then rest s else None)"

definition accept :: "jsstring \<Rightarrow> nat option" where
  "accept s = Some 0"

text \<open>
  \<open>s.replace(pattern, replacement)\<close> for a global pattern: the matches are looked for from
  left to right, each search starting where the previous match ended. \<open>lineStart\<close> says
  whether \<open>^\<close> matches at the position, \<open>skip\<close> counts the code units of a match that
  are still to be passed over. The replacement is computed from the input at the start
  of the match. Every pattern below matches at least one code unit.
\<close>

fun replaceAll ::
  "(bool \<Rightarrow> jsstring \<Rightarrow> nat option) \<Rightarrow> (jsstring \<Rightarrow> jsstring) \<Rightarrow> bool \<Rightarrow> nat \<Rightarrow> jsstring \<Rightarrow> jsstring" where
  "replaceAll pattern replacement lineStart skip [] = []"
| "replaceAll pattern replacement lineStart (Suc skip) (c # s) =
     replaceAll pattern replacement (isLineTerminator c) skip s"
| "replaceAll pattern replacement lineStart 0 (c # s) =
     (case pattern lineStart (c # s) of
        Some n \<Rightarrow>
          replacement (c # s) @ replaceAll pattern replacement (isLineTerminator c) (n - 1) s
      | None \<Rightarrow> c # replaceAll pattern replacement (isLineTerminator c) 0 s)"

definition replace ::
  "(bool \<Rightarrow> jsstring \<Rightarrow> nat option) \<Rightarrow> (jsstring \<Rightarrow> jsstring) \<Rightarrow> jsstring \<Rightarrow> jsstring" where
  "replace pattern replacement s = replaceAll pattern replacement True 0 s"

text \<open>\<open>/^#{1,6}\s+/gm\<close>\<close>

definition headerPattern :: "bool \<Rightarrow> jsstring \<Rightarrow> nat option" where
  "headerPattern lineStart s =
     (if lineStart
      then repeated (\<lambda>c. c = 0x23) 1 (Some 6) (repeated isWhiteSpace 1 None accept) s
      else None)"

text \<open>\<open>/^>\s?/gm\<close>\<close>

definition blockquotePattern :: "bool \<Rightarrow> jsstring \<Rightarrow> nat option" where
  "blockquotePattern lineStart s =
     (if lineStart then literal [0x3E] (repeated isWhiteSpace 0 (Some 1) accept) s else None)"

text \<open>
  \<open>/\[([^\]]+)\]\([^\)]+\)/g\<close>, replaced by \<open>$1\<close>. The group is followed by \<open>]\<close> and
  cannot hold one, so in a match it is the run of code units between the \<open>[\<close> and the
  first \<open>]\<close>.
\<close>

definition linkPattern :: "bool \<Rightarrow> jsstring \<Rightarrow> nat option" where
  "linkPattern lineStart s =
     literal [0x5B]
       (repeated (\<lambda>c. c \<noteq> 0x5D) 1 None
         (literal [0x5D, 0x28]
           (repeated (\<lambda>c. c \<noteq> 0x29) 1 None (literal [0x29] accept)))) s"

definition linkText :: "jsstring \<Rightarrow> jsstring" where
  "linkText s = takeWhile (\<lambda>c. c \<noteq> 0x5D) (drop 1 s)"

text \<open>\<open>/^(---|___|\*\*\*)\s*$/gm\<close>\<close>

definition rulePattern :: "bool \<Rightarrow> jsstring \<Rightarrow> nat option" where
  "rulePattern lineStart s =
     (if lineStart
      then firstOf
             [literal (js ''---'') (repeated isWhiteSpace 0 None (endOfLine accept)),
              literal (js ''___'') (repeated isWhiteSpace 0 None (endOfLine accept)),
              literal (js ''***'') (repeated isWhiteSpace 0 None (endOfLine accept))] s
      else None)"

text \<open>\<open>/^(\*|-|\+)\s+/gm\<close>\<close>

definition bulletPattern :: "bool \<Rightarrow> jsstring \<Rightarrow> nat option" where
  "bulletPattern lineStart s =
     (if lineStart
      then firstOf
             [literal (js ''*'') (repeated isWhiteSpace 1 None accept),
              literal (js ''-'') (repeated isWhiteSpace 1 None accept),
              literal (js ''+'') (repeated isWhiteSpace 1 None accept)] s
      else None)"

text \<open>\<open>/(\*\*|__|\*|_|~~|`)/g\<close>\<close>

definition emphasisPattern :: "bool \<Rightarrow> jsstring \<Rightarrow> nat option" where
  "emphasisPattern lineStart s =
     firstOf
       [literal (js ''**'') accept, literal (js ''__'') accept, literal (js ''*'') accept,
        literal (js ''_'') accept, literal [0x7E, 0x7E] accept, literal [0x60] accept] s"

text \<open>\<open>/\n+/g\<close> and \<open>/\s{2,}/g\<close>\<close>

definition newlinesPattern :: "bool \<Rightarrow> jsstring \<Rightarrow> nat option" where
  "newlinesPattern lineStart s = repeated (\<lambda>c. c = 0x0A) 1 None accept s"

definition spacesPattern :: "bool \<Rightarrow> jsstring \<Rightarrow> nat option" where
  "spacesPattern lineStart s = repeated isWhiteSpace 2 None accept s"

definition cleanTextForSpeech_src :: "jsstring \<Rightarrow> jsstring" where
  "cleanTextForSpeech_src text =
     trim
       (replace spacesPattern (\<lambda>m. js '' '')
         (replace newlinesPattern (\<lambda>m. js '' '')
           (replace emphasisPattern (\<lambda>m. [])
             (replace bulletPattern (\<lambda>m. [])
               (replace rulePattern (\<lambda>m. [])
                 (replace linkPattern linkText
                   (replace blockquotePattern (\<lambda>m. [])
                     (replace headerPattern (\<lambda>m. []) text))))))))"

section \<open>createMp3Blob\<close>

text \<open>
  \<open>new Int16Array(pcmData)\<close> views the buffer as 16-bit samples, low byte first, and
  throws a \<open>RangeError\<close> when the byte length is odd.
\<close>

fun int16Samples :: "bytes \<Rightarrow> 16 word list" where
  "int16Samples (lo # hi # rest) = (ucast lo OR push_bit 8 (ucast hi)) # int16Samples rest"
| "int16Samples rest = []"

definition newInt16Array :: "bytes \<Rightarrow> exn + 16 word list" where
  "newInt16Array pcmData =
     (if odd (length pcmData) then
        Inl (ErrorObject (js ''byte length of Int16Array should be a multiple of 2''))
      else Inr (int16Samples pcmData))"

text \<open>\<open>pcm.subarray(a, b)\<close> for \<open>0 \<le> a \<le> b\<close>; the end is clamped to the length.\<close>

definition subarray :: "'a list \<Rightarrow> nat \<Rightarrow> nat \<Rightarrow> 'a list" where
  "subarray xs a b = take (min b (length xs) - min a (length xs)) (drop (min a (length xs)) xs)"

definition sampleBlockSize :: nat where
  "sampleBlockSize = 1152"

text \<open>
  \<^verbatim>\<open>for (let i = 0; i < pcm.length; i += sampleBlockSize) { ... }\<close>
  on the loop state: the index, the encoder and \<open>mp3Data\<close>.
\<close>

partial_function (option) encodeLoop ::
  "'e platform \<Rightarrow> 16 word list \<Rightarrow> nat \<Rightarrow> 'e \<Rightarrow> bytes list \<Rightarrow> (bytes list \<times> 'e) option" where
  "encodeLoop p pcm i mp3encoder mp3Data =
     (if i < length pcm then
        (let sampleChunk = subarray pcm i (i + sampleBlockSize);
             enc = encodeBuffer p mp3encoder sampleChunk;
             mp3buf = fst enc
         in encodeLoop p pcm (i + sampleBlockSize) (snd enc)
              (if length mp3buf > 0 then mp3Data @ [mp3buf] else mp3Data))
      else Some (mp3Data, mp3encoder))"

declare encodeLoop.simps [code]

text \<open>
  The result is \<open>None\<close> when the function does not return, \<open>Some (Inl e)\<close> when it throws
  and \<open>Some (Inr b)\<close> when it returns the blob.
\<close>

definition createMp3Blob :: "'e platform \<Rightarrow> bytes \<Rightarrow> nat \<Rightarrow> nat \<Rightarrow> (exn + blob) option" where
  "createMp3Blob p pcmData sampleRate numChannels =
     (case newInt16Array pcmData of
        Inl e \<Rightarrow> Some (Inl e)
      | Inr pcm \<Rightarrow>
          (case encodeLoop p pcm 0 (Mp3Encoder p numChannels sampleRate 128) [] of
             None \<Rightarrow> None
           | Some (mp3Data, mp3encoder) \<Rightarrow>
               (let mp3buf = flush p mp3encoder
                in Some (Inr \<lparr>blobParts = (if length mp3buf > 0 then mp3Data @ [mp3buf] else mp3Data),
                              blobType = js ''audio/mpeg''\<rparr>))))"

section \<open>The handlers of the component\<close>

subsection \<open>handleAnalysis\<close>

text \<open>\<open>haystack.includes(needle)\<close>.\<close>

definition stringIncludes :: "jsstring \<Rightarrow> jsstring \<Rightarrow> bool" where
  "stringIncludes haystack needle \<longleftrightarrow>
     list_ex (\<lambda>i. take (length needle) (drop i haystack) = needle) [0..<Suc (length haystack)]"

text \<open>\<open>e?.message\<close>\<close>

definition message :: "exn \<Rightarrow> jsstring option" where
  "message e = (case e of ErrorObject m \<Rightarrow> Some m | StringValue s \<Rightarrow> None | OtherValue \<Rightarrow> None)"

text \<open>The message that the \<open>catch\<close> block of \<open>handleAnalysis\<close> shows.\<close>

definition analysisErrorMessage :: "'e platform \<Rightarrow> exn \<Rightarrow> jsstring" where
  "analysisErrorMessage p e =
     (case truthy (message e) of
        None \<Rightarrow>
          js ''Ocurri'' @ [0xF3] @
            js '' un error al procesar el documento. Por favor, int'' @ [0xE9] @
            js ''ntalo de nuevo.''
      | Some m \<Rightarrow>
          if stringIncludes (toLowerCase p m) (js ''api key'') \<or>
             stringIncludes (toLowerCase p m) (js ''permission denied'')
          then
            js ''Error de autenticaci'' @ [0xF3] @
              js ''n. Por favor, verifica que la API Key est'' @ [0xE9] @
              js '' configurada correctamente en el entorno de la aplicaci'' @ [0xF3] @
              js ''n.''
          else if stringIncludes (toLowerCase p m) (js ''token'') then
            js ''El documento es demasiado grande y no se pudo procesar. Error: '' @ m
          else
            js ''Ocurri'' @ [0xF3] @
            js '' un error al procesar el documento. Por favor, int'' @ [0xE9] @
            js ''ntalo de nuevo.'')"

text \<open>
  A handler gives the state after it has run and the events at the API during the run.
\<close>

definition handleAnalysis :: "'e platform \<Rightarrow> appState \<Rightarrow> jsstring \<Rightarrow> appState \<times> event list" where
  "handleAnalysis p st text =
     (if trim text = [] then
        (st\<lparr>error := Some (js ''El documento no puede estar vac'' @ [0xED] @ js ''o.'')\<rparr>, [])
      else
        (let st1 = st\<lparr>isAnalyzing := True, error := None, warning := None, audioSrc := None,
                       audioBlob := None, analysisResults := None, translatedResults := None\<rparr>;
             modesToGenerate = [Completo, Resumido, PuntosClave];
             analysisPromises = map (\<lambda>mode. generateTextAnalysis p text mode) modesToGenerate;
             st2 =
               (case promiseAll analysisPromises of
                  Inr results \<Rightarrow>
                    st1\<lparr>analysisResults :=
                          Some [Completo \<mapsto> results ! 0, Resumido \<mapsto> results ! 1,
                                PuntosClave \<mapsto> results ! 2],
                        activeTab := Resumido, displayedLanguage := Es, isProcessed := True\<rparr>
                | Inl e \<Rightarrow>
                    st1\<lparr>error := Some (analysisErrorMessage p e), isProcessed := False\<rparr>)
         in (st2\<lparr>isAnalyzing := False\<rparr>, traceOf analysisPromises)))"

subsection \<open>handleTranslate\<close>

text \<open>\<open>results?.[mode]\<close>\<close>

definition lookupMode :: "AnalysisResults option \<Rightarrow> ResponseMode \<Rightarrow> jsstring option" where
  "lookupMode results mode = (case results of None \<Rightarrow> None | Some m \<Rightarrow> m mode)"

definition handleTranslate :: "'e platform \<Rightarrow> appState \<Rightarrow> ResponseMode \<Rightarrow> appState \<times> event list" where
  "handleTranslate p st mode =
     (case truthy (lookupMode (analysisResults st) mode) of
        None \<Rightarrow> (st\<lparr>error := Some (js ''No hay texto para traducir.'')\<rparr>, [])
      | Some spanishText \<Rightarrow>
          (let st1 = st\<lparr>isTranslating := True, error := None\<rparr>;
               translation = translateText p spanishText;
               st2 =
                 (case result translation of
                    Inr translatedText \<Rightarrow>
                      st1\<lparr>translatedResults :=
                            Some ((case translatedResults st1 of None \<Rightarrow> Map.empty | Some prev \<Rightarrow> prev)
                                    (mode \<mapsto> translatedText)),
                          displayedLanguage := En\<rparr>
                  | Inl e \<Rightarrow> st1\<lparr>error := Some (js ''No se pudo traducir el texto.'')\<rparr>)
           in (st2\<lparr>isTranslating := False\<rparr>, traceOf [translation])))"

subsection \<open>handleGenerateAudio\<close>

definition TTS_CHARACTER_LIMIT :: nat where
  "TTS_CHARACTER_LIMIT = 4800"

text \<open>
  \<open>audioBase64Results.map(b64 => ...)\<close>: \<open>atob\<close>, then \<open>charCodeAt\<close> of every character
  into a \<open>Uint8Array\<close>, which keeps the low eight bits. The first \<open>atob\<close> that throws
  ends the map.
\<close>

fun decodeBuffers :: "'e platform \<Rightarrow> jsstring list \<Rightarrow> exn + bytes list" where
  "decodeBuffers p [] = Inr []"
| "decodeBuffers p (b64 # rest) =
     (case atob p b64 of
        Inl e \<Rightarrow> Inl e
      | Inr byteCharacters \<Rightarrow>
          (case decodeBuffers p rest of
             Inl e \<Rightarrow> Inl e
           | Inr buffers \<Rightarrow> Inr (map ucast byteCharacters # buffers)))"

text \<open>
  \<open>target.set(source, offset)\<close> of a typed array: a \<open>RangeError\<close> when the source does
  not fit, otherwise the bytes from \<open>offset\<close> on are overwritten.
\<close>

definition typedArraySet :: "bytes \<Rightarrow> bytes \<Rightarrow> nat \<Rightarrow> exn + bytes" where
  "typedArraySet target source offset =
     (if offset + length source > length target then
        Inl (ErrorObject (js ''offset is out of bounds''))
      else Inr (take offset target @ source @ drop (offset + length source) target))"

text \<open>
  \<^verbatim>\<open>for (const buffer of arrayBuffers) { combinedPcm.set(new Uint8Array(buffer), offset); offset += buffer.byteLength; }\<close>
\<close>

fun copyBuffers :: "bytes list \<Rightarrow> bytes \<Rightarrow> nat \<Rightarrow> exn + bytes" where
  "copyBuffers [] combinedPcm offset = Inr combinedPcm"
| "copyBuffers (buffer # rest) combinedPcm offset =
     (case typedArraySet combinedPcm buffer offset of
        Inl e \<Rightarrow> Inl e
      | Inr combinedPcm' \<Rightarrow> copyBuffers rest combinedPcm' (offset + length buffer))"

text \<open>
  The assembly of the PCM data: a zero-filled array of the total length, filled buffer by
  buffer.
\<close>

definition combinePcm :: "bytes list \<Rightarrow> exn + bytes" where
  "combinePcm arrayBuffers =
     (let totalLength = foldl (\<lambda>acc v. acc + length v) 0 arrayBuffers;
          combinedPcm = replicate totalLength 0
      in copyBuffers arrayBuffers combinedPcm 0)"

text \<open>
  The \<open>try\<close> block after the requests: decode, assemble, encode. \<open>None\<close> when it does
  not return, \<open>Some (Inl e)\<close> when it throws.
\<close>

definition processAudio :: "'e platform \<Rightarrow> jsstring list \<Rightarrow> (exn + blob) option" where
  "processAudio p audioBase64Results =
     (case decodeBuffers p audioBase64Results of
        Inl e \<Rightarrow> Some (Inl e)
      | Inr arrayBuffers \<Rightarrow>
          (case combinePcm arrayBuffers of
             Inl e \<Rightarrow> Some (Inl e)
           | Inr combinedPcm \<Rightarrow> createMp3Blob p combinedPcm 24000 1))"

text \<open>
  The \<open>try\<close> block from \<open>setGenerationProgress('Procesando audio...')\<close> on, with its
  \<open>catch\<close> and \<open>finally\<close>; \<open>awaited\<close> is what the \<open>await\<close> before it gave.
\<close>

definition finishAudio ::
  "'e platform \<Rightarrow> appState \<Rightarrow> language \<Rightarrow> exn + jsstring list \<Rightarrow> appState option" where
  "finishAudio p st1 lang awaited =
     (let failed = st1\<lparr>error := Some (js ''No se pudo generar el audio para este texto.''),
                      isGeneratingAudio := False, generationProgress := None\<rparr>
      in case awaited of
           Inl e \<Rightarrow> Some failed
         | Inr audioBase64Results \<Rightarrow>
             (case processAudio p audioBase64Results of
                None \<Rightarrow> None
              | Some (Inl e) \<Rightarrow> Some failed
              | Some (Inr mp3Blob) \<Rightarrow>
                  Some (st1\<lparr>audioSrc := Some (createObjectURL p mp3Blob),
                            audioBlob := Some (mp3Blob, lang),
                            isGeneratingAudio := False, generationProgress := None\<rparr>)))"

text \<open>\<open>await promise\<close> of a single promise, as a one-element result list.\<close>

definition awaitOne :: "'a promise \<Rightarrow> exn + 'a list" where
  "awaitOne pr = (case result pr of Inl e \<Rightarrow> Inl e | Inr v \<Rightarrow> Inr [v])"

text \<open>
  The handler. The progress texts that it shows while it runs are not in the model: the
  \<open>finally\<close> block sets \<open>generationProgress\<close> back to \<open>null\<close>. The result is \<open>None\<close>
  when the handler does not return; otherwise it has the state after the run, the texts
  of the calls of \<open>generateSpeech\<close> in the order of the calls, and the events at the API.
\<close>

definition handleGenerateAudio ::
  "'e platform \<Rightarrow> appState \<Rightarrow> ResponseMode \<Rightarrow> language \<Rightarrow>
     (appState \<times> jsstring list \<times> event list) option" where
  "handleGenerateAudio p st mode lang =
     (case truthy (if lang = Es then lookupMode (analysisResults st) mode
                   else lookupMode (translatedResults st) mode) of
        None \<Rightarrow>
          Some (st\<lparr>error := Some (js ''No hay texto en '' @
                    (if lang = Es then js ''espa'' @ [0xF1] @ js ''ol'' else js ''ingl'' @ [0xE9] @ js ''s'') @
                    js '' para generar el audio.'')\<rparr>, [], [])
      | Some textToSpeak \<Rightarrow>
          if \<not> isLameJsReady st then
            Some (st\<lparr>error := Some (js ''La librer'' @ [0xED] @ js ''a de codificaci'' @
                                [0xF3] @ js ''n de audio no est'' @ [0xE1] @
                                js '' lista. Por favor, int'' @ [0xE9] @
                                js ''ntalo de nuevo en un momento.'')\<rparr>, [], [])
          else
            (let st1 = st\<lparr>isGeneratingAudio := True, error := None, warning := None,
                           audioSrc := None, audioBlob := None, generationProgress := None\<rparr>
             in if length textToSpeak \<le> TTS_CHARACTER_LIMIT then
                  (let singleResult = generateSpeech p textToSpeak lang
                   in case finishAudio p st1 lang (awaitOne singleResult) of
                        None \<Rightarrow> None
                      | Some st2 \<Rightarrow> Some (st2, [textToSpeak], traceOf [singleResult]))
                else
                  (case splitTextIntoChunks textToSpeak TTS_CHARACTER_LIMIT of
                     None \<Rightarrow> None
                   | Some chunks \<Rightarrow>
                       if length chunks = 0 then
                         Some (st1\<lparr>warning :=
                                     Some (js ''No se pudo procesar el texto para generar audio.''),
                                   isGeneratingAudio := False, generationProgress := None\<rparr>,
                               [], [])
                       else
                         (let promises = map (\<lambda>chunk. generateSpeech p chunk lang) chunks
                          in case finishAudio p st1 lang (promiseAll promises) of
                               None \<Rightarrow> None
                             | Some st2 \<Rightarrow> Some (st2, chunks, traceOf promises)))))"

subsection \<open>handleFileChange\<close>

text \<open>\<open>items.map(item => item.str).join(' ')\<close>\<close>

fun joinWithSpace :: "jsstring list \<Rightarrow> jsstring" where
  "joinWithSpace [] = []"
| "joinWithSpace [s] = s"
| "joinWithSpace (s # rest) = s @ js '' '' @ joinWithSpace rest"

definition pdfExtractError :: jsstring where
  "pdfExtractError =
     js ''No se pudo extraer el texto del PDF. El archivo podr'' @ [0xED] @
       js ''a estar da'' @ [0xF1] @ js ''ado o protegido.''"

text \<open>The loop over the pages of \<open>extractTextFromPdf\<close>, with \<open>fullText\<close> as its state.\<close>

fun pagesText :: "jsstring list option list \<Rightarrow> jsstring \<Rightarrow> exn + jsstring" where
  "pagesText [] fullText = Inr fullText"
| "pagesText (page # pages) fullText =
     (case page of
        None \<Rightarrow> Inl (StringValue pdfExtractError)
      | Some items \<Rightarrow> pagesText pages (fullText @ joinWithSpace items @ [0x0A, 0x0A]))"

definition extractTextFromPdf :: "'e platform \<Rightarrow> inputFile \<Rightarrow> exn + jsstring" where
  "extractTextFromPdf p f =
     (case readAsArrayBuffer p f of
        None \<Rightarrow> Inl (StringValue (js ''Ocurri'' @ [0xF3] @
                           js '' un error al leer el archivo PDF.''))
      | Some typedarray \<Rightarrow>
          (case getDocument p typedarray of
             None \<Rightarrow> Inl (StringValue pdfExtractError)
           | Some pages \<Rightarrow> pagesText pages []))"

text \<open>
  \<open>event.target.files?.[0]\<close> is the argument, \<open>None\<close> when no file was chosen. The
  callbacks of the \<open>FileReader\<close> are folded into the handler.
\<close>

definition clearFileInput :: "appState \<Rightarrow> appState" where
  "clearFileInput st =
     (case fileInputValue st of None \<Rightarrow> st | Some v \<Rightarrow> st\<lparr>fileInputValue := Some []\<rparr>)"

definition handleFileChange :: "'e platform \<Rightarrow> appState \<Rightarrow> inputFile option \<Rightarrow> appState" where
  "handleFileChange p st chosen =
     (case chosen of
        None \<Rightarrow> st
      | Some f \<Rightarrow>
          (let st1 = st\<lparr>error := None, warning := None, fileName := [], documentText := []\<rparr>
           in if fileType f = js ''text/plain'' then
                (case readAsText p f of
                   Some content \<Rightarrow> st1\<lparr>documentText := content, fileName := name f\<rparr>
                 | None \<Rightarrow> st1\<lparr>error := Some (js ''Ocurri'' @ [0xF3] @
                           js '' un error al leer el archivo .txt.'')\<rparr>)
              else if fileType f = js ''application/pdf'' then
                (let st2 = st1\<lparr>isParsingPdf := True, fileName := name f\<rparr>;
                     st3 =
                       (case extractTextFromPdf p f of
                          Inr content \<Rightarrow> st2\<lparr>documentText := content\<rparr>
                        | Inl err \<Rightarrow>
                            st2\<lparr>error := Some (case err of
                                                StringValue s \<Rightarrow> s
                                              | ErrorObject m \<Rightarrow> js ''Error desconocido al procesar el PDF.''
                                              | OtherValue \<Rightarrow> js ''Error desconocido al procesar el PDF.''),
                                fileName := []\<rparr>)
                 in st3\<lparr>isParsingPdf := False\<rparr>)
              else
                clearFileInput (st1\<lparr>error := Some (js ''Por favor, sube un archivo .txt o .pdf.'')\<rparr>)))"

section \<open>An example environment\<close>

text \<open>
  A service that answers every request after one time unit with a short text and a short
  piece of audio, a browser whose \<open>atob\<close> gives its argument back, and an encoder that
  writes the low byte of every sample.
\<close>

definition sampleReply :: reply where
  "sampleReply =
     \<lparr>latency = 1,
      outcome = Inr \<lparr>responseText = Some (js ''Hola.''), blockReason = None,
                     inlineData = Some (js ''abcd'')\<rparr>\<rparr>"

definition samplePlatform :: "nat platform" where
  "samplePlatform =
     \<lparr>generateContent = (\<lambda>req. sampleReply),
      cleanTextForSpeech = (\<lambda>s. s),
      modeLabel = (\<lambda>mode. js ''modo''),
      toLowerCase = (\<lambda>s. s),
      atob = (\<lambda>s. Inr s),
      Mp3Encoder = (\<lambda>channels rate kbps. 0),
      encodeBuffer = (\<lambda>enc samples. (map ucast samples, enc + length samples)),
      flush = (\<lambda>enc. []),
      createObjectURL = (\<lambda>b. js ''blob:audio''),
      readAsText = (\<lambda>f. Some (js ''Hola.'')),
      readAsArrayBuffer = (\<lambda>f. Some []),
      getDocument = (\<lambda>b. Some [Some [js ''Hola.'']])\<rparr>"

text \<open>The same environment with a service that rejects every request.\<close>

definition failingPlatform :: "nat platform" where
  "failingPlatform =
     samplePlatform\<lparr>generateContent :=
       (\<lambda>req. \<lparr>latency = 1, outcome = Inl (ErrorObject (js ''quota exceeded''))\<rparr>)\<rparr>"

text \<open>
  The state after an analysis gave \<open>Hola.\<close> as the concise summary, with and without the
  encoder library loaded.
\<close>

definition analysedState :: appState where
  "analysedState =
     initialState\<lparr>analysisResults := Some [Resumido \<mapsto> js ''Hola.''], isProcessed := True,
                  isLameJsReady := True\<rparr>"

definition notReadyState :: appState where
  "notReadyState = analysedState\<lparr>isLameJsReady := False\<rparr>"

text \<open>
  The environment with the cleaning function of the service module, and the state in which
  the concise summary is \<open>**\<close>.
\<close>

definition servicePlatform :: "nat platform" where
  "servicePlatform = samplePlatform\<lparr>cleanTextForSpeech := cleanTextForSpeech_src\<rparr>"

definition starsState :: appState where
  "starsState = analysedState\<lparr>analysisResults := Some [Resumido \<mapsto> js ''**'']\<rparr>"

text \<open>
  A sentence of exactly 4800 code units, 4799 times \<open>a\<close> and a full stop, and the state
  in which the concise summary is that sentence followed by \<open>b.\<close>
\<close>

definition limitSentence :: jsstring where
  "limitSentence = replicate 4799 0x61 @ js ''.''"

definition longState :: appState where
  "longState = analysedState\<lparr>analysisResults := Some [Resumido \<mapsto> limitSentence @ js ''b.'']\<rparr>"

section \<open>Vocabulary of the properties\<close>

text \<open>The requests that begin in a trace, in the order in which they begin.\<close>

fun begun :: "event list \<Rightarrow> request list" where
  "begun [] = []"
| "begun (RequestBegin r # es) = r # begun es"
| "begun (RequestEnd r # es) = begun es"


text \<open>A string without its space characters (U+0020).\<close>

definition withoutSpaces :: "jsstring \<Rightarrow> jsstring" where
  "withoutSpaces s = filter (\<lambda>c. c \<noteq> 0x20) s"

section \<open>Properties of the sentence pattern\<close>

lemma backtrack_splits:
  "backtrack k s = Some (m, rest) \<Longrightarrow> s = m @ rest"
proof (induction k)
  case 0
  then show ?case by simp
next
  case (Suc k)
  show ?case
  proof (cases "matchTerminators (drop (Suc k) s)")
    case None
    with Suc show ?thesis by simp
  next
    case (Some q)
    with Suc.prems have m: "m = take (Suc k) s @ takeWhile isTerminator (drop (Suc k) s)"
      and rest: "rest = dropWhile isTerminator (drop (Suc k) s)"
      by (auto simp: matchTerminators_def Let_def split: if_splits)
    have "s = take (Suc k) s @ drop (Suc k) s" by simp
    also have "drop (Suc k) s =
        takeWhile isTerminator (drop (Suc k) s) @ dropWhile isTerminator (drop (Suc k) s)"
      by simp
    finally show ?thesis unfolding m rest by simp
  qed
qed

lemma regexExec_splits:
  "regexExec s = Some (m, rest) \<Longrightarrow> \<exists>pre. s = pre @ m @ rest"
proof (induction s)
  case Nil
  then show ?case by simp
next
  case (Cons c s)
  show ?case
  proof (cases "matchSentenceAt (c # s)")
    case None
    with Cons.prems have "regexExec s = Some (m, rest)" by simp
    from Cons.IH [OF this] obtain pre where "s = pre @ m @ rest" ..
    then have "c # s = (c # pre) @ m @ rest" by simp
    then show ?thesis ..
  next
    case (Some q)
    with Cons.prems have "matchSentenceAt (c # s) = Some (m, rest)" by simp
    then have "c # s = m @ rest"
      unfolding matchSentenceAt_def by (rule backtrack_splits)
    then have "c # s = [] @ m @ rest" by simp
    then show ?thesis ..
  qed
qed

lemma subseq_matchSentences: "subseq (concat (matchSentences s)) s"
proof (induction s rule: matchSentences.induct)
  case (1 s)
  show ?case
  proof (cases "regexExec s")
    case None
    then show ?thesis by (simp add: matchSentences.simps)
  next
    case (Some q)
    obtain m rest where q: "q = (m, rest)" by (cases q)
    with Some have exec: "regexExec s = Some (m, rest)" by simp
    from regexExec_splits [OF exec] obtain pre where s: "s = pre @ m @ rest" ..
    from "1" [OF exec refl] have "subseq (concat (matchSentences rest)) rest" .
    then have "subseq (m @ concat (matchSentences rest)) (m @ rest)"
      by (simp add: subseq_append')
    then have "subseq (m @ concat (matchSentences rest)) (pre @ m @ rest)"
      by (rule subseq_order.order_trans) (rule suffix_imp_subseq, simp add: suffix_def)
    moreover from exec have "matchSentences s = m # matchSentences rest"
      by (simp add: matchSentences.simps)
    ultimately show ?thesis using s by simp
  qed
qed

lemma subseq_trim: "subseq (trim s) s"
proof -
  let ?y = "dropWhile isWhiteSpace s"
  have "trim s @ rev (takeWhile isWhiteSpace (rev ?y)) =
      rev (takeWhile isWhiteSpace (rev ?y) @ dropWhile isWhiteSpace (rev ?y))"
    by (simp only: trim_def rev_append)
  also have "\<dots> = rev (rev ?y)" by (simp only: takeWhile_dropWhile_id)
  also have "\<dots> = ?y" by simp
  finally have "?y = trim s @ rev (takeWhile isWhiteSpace (rev ?y))" by (rule sym)
  then have "prefix (trim s) ?y" by (rule prefixI)
  then have "subseq (trim s) ?y" by (rule prefix_imp_subseq)
  moreover have "subseq ?y s" by (rule suffix_imp_subseq) (rule suffix_dropWhile)
  ultimately show ?thesis by (rule subseq_order.order_trans)
qed

lemma subseq_concat_trim: "subseq (concat (map trim ss)) (concat ss)"
proof (induction ss)
  case Nil
  show ?case by simp
next
  case (Cons s ss)
  from subseq_trim [of s] Cons show ?case
    by (simp add: list_emb_append_mono)
qed

text \<open>
  A text that begins with a code unit other than a terminator and ends with a terminator
  is made of sentences only: the matches, one after the other, are the text.
\<close>

lemma matchSentenceAt_run:
  assumes "s \<noteq> []" and "\<not> isTerminator (hd s)" and "isTerminator (last s)"
  shows "\<exists>m rest. regexExec s = Some (m, rest) \<and> s = m @ rest
           \<and> (rest \<noteq> [] \<longrightarrow> \<not> isTerminator (hd rest) \<and> isTerminator (last rest))"
proof -
  let ?body = "takeWhile (\<lambda>c. \<not> isTerminator c) s"
  let ?tail = "dropWhile (\<lambda>c. \<not> isTerminator c) s"
  let ?terms = "takeWhile isTerminator ?tail"
  let ?rest = "dropWhile isTerminator ?tail"
  from assms(1,2) have body: "?body \<noteq> []" by (cases s) simp_all
  then obtain k where k: "length ?body = Suc k" by (cases ?body) simp_all
  have split: "s = ?body @ ?tail" by simp
  have tail: "?tail \<noteq> []"
  proof
    assume "?tail = []"
    then have "\<forall>c\<in>set s. \<not> isTerminator c" by (simp add: dropWhile_eq_Nil_conv)
    with assms(1) have "\<not> isTerminator (last s)" by simp
    with assms(3) show False by simp
  qed
  then have "isTerminator (hd ?tail)" using hd_dropWhile [of "\<lambda>c. \<not> isTerminator c" s] by simp
  with tail have terms: "?terms \<noteq> []" by (cases ?tail) simp_all
  have "drop (Suc k) s = ?tail"
    using k split by (metis append_eq_conv_conj)
  moreover have "take (Suc k) s = ?body"
    using k split by (metis append_eq_conv_conj)
  ultimately have "backtrack (Suc k) s = Some (?body @ ?terms, ?rest)"
    using terms by (simp add: matchTerminators_def Let_def)
  then have at: "matchSentenceAt s = Some (?body @ ?terms, ?rest)"
    by (simp add: matchSentenceAt_def k)
  from assms(1) obtain c s' where "s = c # s'" by (cases s) auto
  with at have exec: "regexExec s = Some (?body @ ?terms, ?rest)" by simp
  have whole: "s = (?body @ ?terms) @ ?rest" by simp
  have "\<not> isTerminator (hd ?rest) \<and> isTerminator (last ?rest)" if rest: "?rest \<noteq> []"
  proof
    from rest show "\<not> isTerminator (hd ?rest)" using hd_dropWhile [of isTerminator ?tail] by simp
    from whole rest have "last s = last ?rest" by (metis last_appendR)
    with assms(3) show "isTerminator (last ?rest)" by simp
  qed
  with exec whole show ?thesis by blast
qed

lemma sentences_cover:
  "s \<noteq> [] \<Longrightarrow> \<not> isTerminator (hd s) \<Longrightarrow> isTerminator (last s) \<Longrightarrow>
   concat (matchSentences s) = s"
proof (induction s rule: matchSentences.induct)
  case (1 s)
  from matchSentenceAt_run [OF "1.prems"]
  obtain m rest where exec: "regexExec s = Some (m, rest)" and split: "s = m @ rest"
    and again: "rest \<noteq> [] \<longrightarrow> \<not> isTerminator (hd rest) \<and> isTerminator (last rest)"
    by blast
  have "concat (matchSentences rest) = rest"
  proof (cases "rest = []")
    case True
    then show ?thesis by (simp add: matchSentences.simps)
  next
    case False
    with again "1.IH" [OF exec refl] show ?thesis by simp
  qed
  with exec split show ?case by (simp add: matchSentences.simps)
qed

section \<open>Properties of splitTextIntoChunks\<close>

lemma substring_step:
  "i < length t \<Longrightarrow> substring t i (i + m) = take m (drop i t)"
  by (simp add: substring_def Let_def min_def max_def)

lemma chunkWhile_returns:
  assumes "0 < m"
  shows "\<exists>ps. chunkWhile t m i cs = Some (cs @ ps)
            \<and> (\<forall>p\<in>set ps. p \<noteq> [] \<and> length p \<le> m)
            \<and> concat ps = drop i t"
proof (induction "length t - i" arbitrary: i cs rule: less_induct)
  case less
  show ?case
  proof (cases "i < length t")
    case False
    then have "chunkWhile t m i cs = Some cs"
      by (subst chunkWhile.simps) simp
    with False show ?thesis by simp
  next
    case True
    let ?p = "take m (drop i t)"
    from True assms have "length t - (i + m) < length t - i" by arith
    from less [OF this, of "cs @ [?p]"]
    obtain ps where run: "chunkWhile t m (i + m) (cs @ [?p]) = Some ((cs @ [?p]) @ ps)"
      and small: "\<forall>p\<in>set ps. p \<noteq> [] \<and> length p \<le> m"
      and cat: "concat ps = drop (i + m) t"
      by blast
    from True have "chunkWhile t m i cs = chunkWhile t m (i + m) (cs @ [?p])"
      by (subst chunkWhile.simps) (simp add: substring_step)
    with run have "chunkWhile t m i cs = Some (cs @ (?p # ps))" by simp
    moreover from True assms have "?p \<noteq> []" by simp
    moreover have "length ?p \<le> m" by simp
    moreover have "concat (?p # ps) = drop i t"
    proof -
      have "take m (drop i t) @ drop m (drop i t) = drop i t"
        by (rule append_take_drop_id)
      with cat show ?thesis by (simp add: add.commute)
    qed
    ultimately show ?thesis using small
      by (intro exI [of _ "?p # ps"]) simp
  qed
qed

text \<open>With \<open>maxLength = 0\<close> the loop does not return while there is text left.\<close>

lemma chunkWhile_zero_diverges:
  "i < length t \<Longrightarrow> chunkWhile t 0 i cs = None"
proof (rule ccontr)
  assume left: "i < length t" and "chunkWhile t 0 i cs \<noteq> None"
  then obtain y where run: "chunkWhile t 0 i cs = Some y" by blast
  have "\<not> (m = 0 \<and> j < length u)" if "chunkWhile u m j ds = Some z" for u m j ds z
  proof (rule chunkWhile.raw_induct
          [OF _ that, where P = "\<lambda>u m j ds z. \<not> (m = 0 \<and> j < length u)"])
    fix f :: "jsstring \<Rightarrow> nat \<Rightarrow> nat \<Rightarrow> jsstring list \<Rightarrow> jsstring list option"
      and u' m' j' ds' z'
    assume hyp: "\<And>a b c d y. f a b c d = Some y \<Longrightarrow> \<not> (b = 0 \<and> c < length a)"
      and step: "(if j' < length u'
                  then f u' m' (j' + m') (ds' @ [substring u' j' (j' + m')])
                  else Some ds') = Some z'"
    show "\<not> (m' = 0 \<and> j' < length u')"
    proof
      assume stuck: "m' = 0 \<and> j' < length u'"
      with step have "f u' 0 j' (ds' @ [substring u' j' j']) = Some z'" by simp
      from hyp [OF this] stuck show False by simp
    qed
  qed
  from this [OF run] left show False by simp
qed

lemma length_le_concat:
  "\<forall>x\<in>set xs. x \<noteq> [] \<Longrightarrow> length xs \<le> length (concat xs)"
proof (induction xs)
  case Nil
  show ?case by simp
next
  case (Cons y ys)
  then have "y \<noteq> []" and "length ys \<le> length (concat ys)" by simp_all
  then show ?case by (cases y) simp_all
qed

lemma withoutSpaces_append: "withoutSpaces (a @ b) = withoutSpaces a @ withoutSpaces b"
  by (simp add: withoutSpaces_def)

lemma withoutSpaces_space: "withoutSpaces (js '' '') = []"
  by (simp add: withoutSpaces_def js_def)





text \<open>
  One round of the loop over the sentences: the state it goes on with, that no chunk of
  it is too long, and that it has the trimmed sentence appended, spaces apart.
\<close>

lemma forSentences_step:
  assumes "0 < m"
  shows "\<exists>cs1 cur1.
           forSentences m (s # ss) (cs, cur) = forSentences m ss (cs1, cur1)
         \<and> ((\<forall>c\<in>set cs. length c \<le> m) \<and> length cur \<le> m \<longrightarrow>
              (\<forall>c\<in>set cs1. length c \<le> m) \<and> length cur1 \<le> m)
         \<and> withoutSpaces (concat cs1 @ cur1) =
              withoutSpaces (concat cs @ cur) @ withoutSpaces (trim s)"
proof -
  let ?t = "trim s"
  consider (empty) "length ?t = 0"
    | (long) "length ?t \<noteq> 0" "length ?t > m"
    | (flush) "length ?t \<noteq> 0" "\<not> length ?t > m" "length (cur @ js '' '' @ ?t) > m"
    | (join) "length ?t \<noteq> 0" "\<not> length ?t > m" "\<not> length (cur @ js '' '' @ ?t) > m"
    by blast
  then show ?thesis
  proof cases
    case empty
    then have "forSentences m (s # ss) (cs, cur) = forSentences m ss (cs, cur)"
      by (simp add: Let_def)
    moreover from empty have "withoutSpaces (concat cs @ cur) =
        withoutSpaces (concat cs @ cur) @ withoutSpaces ?t"
      by (simp add: withoutSpaces_def)
    ultimately show ?thesis by blast
  next
    case long
    define cs1 where "cs1 = (if length cur > 0 then cs @ [cur] else cs)"
    have cat1: "concat cs1 = concat cs @ cur" by (simp add: cs1_def)
    from chunkWhile_returns [OF assms, of ?t 0 cs1]
    obtain ps where run: "chunkWhile ?t m 0 cs1 = Some (cs1 @ ps)"
      and small: "\<forall>p\<in>set ps. p \<noteq> [] \<and> length p \<le> m"
      and cat: "concat ps = ?t"
      by auto
    from long run have "forSentences m (s # ss) (cs, cur) = forSentences m ss (cs1 @ ps, [])"
      by (simp add: Let_def cs1_def)
    moreover have "(\<forall>c\<in>set (cs1 @ ps). length c \<le> m) \<and> length ([]::jsstring) \<le> m"
      if "(\<forall>c\<in>set cs. length c \<le> m) \<and> length cur \<le> m"
    proof -
      from that have "\<forall>c\<in>set cs1. length c \<le> m" by (simp add: cs1_def)
      with small show ?thesis by auto
    qed
    moreover have "withoutSpaces (concat (cs1 @ ps) @ []) =
        withoutSpaces (concat cs @ cur) @ withoutSpaces ?t"
      by (simp add: cat cat1 withoutSpaces_append)
    ultimately show ?thesis by blast
  next
    case flush
    then have "forSentences m (s # ss) (cs, cur) = forSentences m ss (cs @ [cur], ?t)"
      by (simp add: Let_def)
    moreover have "(\<forall>c\<in>set (cs @ [cur]). length c \<le> m) \<and> length ?t \<le> m"
      if "(\<forall>c\<in>set cs. length c \<le> m) \<and> length cur \<le> m"
      using that flush by simp
    moreover have "withoutSpaces (concat (cs @ [cur]) @ ?t) =
        withoutSpaces (concat cs @ cur) @ withoutSpaces ?t"
      by (simp add: withoutSpaces_append)
    ultimately show ?thesis by blast
  next
    case join
    let ?cur1 = "cur @ (if length cur > 0 then js '' '' else []) @ ?t"
    from join have "forSentences m (s # ss) (cs, cur) = forSentences m ss (cs, ?cur1)"
      by (simp add: Let_def)
    moreover from join have "length ?cur1 \<le> m" by (simp add: js_def)
    moreover have "withoutSpaces (concat cs @ ?cur1) =
        withoutSpaces (concat cs @ cur) @ withoutSpaces ?t"
      by (simp add: withoutSpaces_append withoutSpaces_space) (simp add: withoutSpaces_def)
    ultimately show ?thesis by blast
  qed
qed

lemma forSentences_returns:
  assumes "0 < m"
  shows "\<exists>cs' cur'.
           forSentences m ss (cs, cur) = Some (cs', cur')
         \<and> ((\<forall>c\<in>set cs. length c \<le> m) \<and> length cur \<le> m \<longrightarrow>
              (\<forall>c\<in>set cs'. length c \<le> m) \<and> length cur' \<le> m)
         \<and> withoutSpaces (concat cs' @ cur') =
              withoutSpaces (concat cs @ cur) @ withoutSpaces (concat (map trim ss))"
proof (induction ss arbitrary: cs cur)
  case Nil
  show ?case by (simp add: withoutSpaces_def)
next
  case (Cons s ss)
  from forSentences_step [OF assms, of s ss cs cur]
  obtain cs1 cur1 where
    step: "forSentences m (s # ss) (cs, cur) = forSentences m ss (cs1, cur1)"
    and b1: "(\<forall>c\<in>set cs. length c \<le> m) \<and> length cur \<le> m \<longrightarrow>
              (\<forall>c\<in>set cs1. length c \<le> m) \<and> length cur1 \<le> m"
    and w1: "withoutSpaces (concat cs1 @ cur1) =
              withoutSpaces (concat cs @ cur) @ withoutSpaces (trim s)"
    by blast
  from Cons [of cs1 cur1]
  obtain cs' cur' where
    run: "forSentences m ss (cs1, cur1) = Some (cs', cur')"
    and b2: "(\<forall>c\<in>set cs1. length c \<le> m) \<and> length cur1 \<le> m \<longrightarrow>
              (\<forall>c\<in>set cs'. length c \<le> m) \<and> length cur' \<le> m"
    and w2: "withoutSpaces (concat cs' @ cur') =
              withoutSpaces (concat cs1 @ cur1) @ withoutSpaces (concat (map trim ss))"
    by blast
  have "withoutSpaces (concat cs' @ cur') =
      withoutSpaces (concat cs @ cur) @ withoutSpaces (concat (map trim (s # ss)))"
    unfolding w2 w1 by (simp add: withoutSpaces_append)
  moreover from b1 b2 have "(\<forall>c\<in>set cs. length c \<le> m) \<and> length cur \<le> m \<longrightarrow>
      (\<forall>c\<in>set cs'. length c \<le> m) \<and> length cur' \<le> m"
    by blast
  ultimately show ?case unfolding step run by blast
qed

text \<open>What \<open>splitTextIntoChunks\<close> returns, in its two branches.\<close>

lemma splitTextIntoChunks_returns:
  assumes "0 < m"
  shows "\<exists>chunks.
           splitTextIntoChunks t m = Some chunks
         \<and> (\<forall>c\<in>set chunks. length c \<le> m)
         \<and> (if matchSentences t = [] then concat chunks = t \<and> [] \<notin> set chunks
             else withoutSpaces (concat chunks) =
                    withoutSpaces (concat (map trim (matchSentences t))))"
proof (cases "matchSentences t = []")
  case True
  show ?thesis
  proof (cases "length t > m")
    case long: True
    from chunkWhile_returns [OF assms, of t 0 "[]"]
    obtain ps where "chunkWhile t m 0 [] = Some ps"
      and "\<forall>p\<in>set ps. p \<noteq> [] \<and> length p \<le> m" and "concat ps = t"
      by auto
    with True long show ?thesis
      by (auto simp: splitTextIntoChunks_def)
  next
    case False
    with True show ?thesis by (simp add: splitTextIntoChunks_def)
  qed
next
  case False
  from forSentences_returns [OF assms, of "matchSentences t" "[]" "[]"]
  obtain cs cur where run: "forSentences m (matchSentences t) ([], []) = Some (cs, cur)"
    and small: "(\<forall>c\<in>set cs. length c \<le> m) \<and> length cur \<le> m"
    and same: "withoutSpaces (concat cs @ cur) =
                 withoutSpaces (concat (map trim (matchSentences t)))"
    by (auto simp: withoutSpaces_def)
  let ?chunks = "if length cur > 0 then cs @ [cur] else cs"
  from False run have "splitTextIntoChunks t m = Some ?chunks"
    by (simp add: splitTextIntoChunks_def)
  moreover from small have "\<forall>c\<in>set ?chunks. length c \<le> m" by simp
  moreover have "concat ?chunks = concat cs @ cur" by simp
  with same have "withoutSpaces (concat ?chunks) =
      withoutSpaces (concat (map trim (matchSentences t)))"
    by (simp only:)
  ultimately show ?thesis using False by (simp only: if_False) blast
qed

section \<open>Properties of promises and traces\<close>

lemma promiseAll_single: "promiseAll [pr] = awaitOne pr"
  by (simp add: promiseAll_def awaitOne_def split: sum.splits)



lemma begun_traceOf: "begun (traceOf ps) = map snd (pending ps)"
proof -
  have b: "begun (map (RequestBegin \<circ> snd) xs @ es) = map snd xs @ begun es" for xs es
    by (induction xs) simp_all
  have e: "begun (map (RequestEnd \<circ> snd) xs) = []" for xs :: "(nat \<times> request) list"
    by (induction xs) simp_all
  show ?thesis by (simp add: traceOf_def b e)
qed

lemma traceOf_shape:
  "\<exists>ends. traceOf ps = map RequestBegin (map snd (pending ps)) @ map RequestEnd ends
      \<and> mset ends = mset (map snd (pending ps))"
proof -
  have "mset (map snd (sort_key fst (pending ps))) = mset (map snd (pending ps))"
    by simp
  moreover have "traceOf ps = map RequestBegin (map snd (pending ps)) @
      map RequestEnd (map snd (sort_key fst (pending ps)))"
    by (simp add: traceOf_def)
  ultimately show ?thesis by blast
qed

lemma not_sequential:
  "2 \<le> length rs \<Longrightarrow> \<not> sequential (map RequestBegin rs @ es)"
proof -
  assume "2 \<le> length rs"
  then obtain r1 r2 rest where "rs = r1 # r2 # rest"
    by (cases rs; cases "tl rs") auto
  then show ?thesis by (simp add: sequential_def)
qed

lemma inFlight_ends:
  "n \<le> Suc 0 \<Longrightarrow> list_all (\<lambda>k. k \<le> Suc 0) (inFlight n (map RequestEnd ends))"
  by (induction ends arbitrary: n) simp_all

lemma sequential_iff:
  "sequential (map RequestBegin rs @ map RequestEnd ends) \<longleftrightarrow> length rs \<le> 1"
proof (cases "2 \<le> length rs")
  case True
  from not_sequential [OF this] True show ?thesis by simp
next
  case False
  then consider "rs = []" | r where "rs = [r]"
    by (cases rs; cases "tl rs") auto
  then show ?thesis
  proof cases
    case 1
    then show ?thesis by (simp add: sequential_def inFlight_ends)
  next
    case 2
    then show ?thesis by (simp add: sequential_def inFlight_ends)
  qed
qed

section \<open>Properties of the audio assembly\<close>

lemma encodeLoop_returns:
  "\<exists>r. encodeLoop p pcm i enc acc = Some r"
proof (induction "length pcm - i" arbitrary: i enc acc rule: less_induct)
  case less
  show ?case
  proof (cases "i < length pcm")
    case False
    then have "encodeLoop p pcm i enc acc = Some (acc, enc)"
      by (subst encodeLoop.simps) simp
    then show ?thesis ..
  next
    case True
    then have "length pcm - (i + sampleBlockSize) < length pcm - i"
      by (simp add: sampleBlockSize_def)
    from less [OF this] True show ?thesis
      by (subst encodeLoop.simps) (simp add: Let_def)
  qed
qed

lemma createMp3Blob_returns:
  "\<exists>r. createMp3Blob p pcmData sampleRate numChannels = Some r"
proof (cases "newInt16Array pcmData")
  case (Inl e)
  then show ?thesis by (simp add: createMp3Blob_def)
next
  case (Inr pcm)
  from encodeLoop_returns [of p pcm 0 "Mp3Encoder p numChannels sampleRate 128" "[]"]
  obtain mp3Data enc where
    "encodeLoop p pcm 0 (Mp3Encoder p numChannels sampleRate 128) [] = Some (mp3Data, enc)"
    by auto
  with Inr show ?thesis by (simp add: createMp3Blob_def Let_def)
qed

lemma foldl_byteLength:
  "foldl (\<lambda>acc v. acc + length v) a buffers = a + length (concat buffers)"
  by (induction buffers arbitrary: a) simp_all

lemma copyBuffers_fits:
  "offset + length (concat buffers) \<le> length target \<Longrightarrow>
   copyBuffers buffers target offset =
     Inr (take offset target @ concat buffers @ drop (offset + length (concat buffers)) target)"
proof (induction buffers arbitrary: target offset)
  case Nil
  show ?case by simp
next
  case (Cons b buffers)
  let ?target' = "take offset target @ b @ drop (offset + length b) target"
  from Cons.prems have fits: "offset + length b \<le> length target" by simp
  then have set: "typedArraySet target b offset = Inr ?target'"
    by (simp add: typedArraySet_def)
  from Cons.prems have len: "length ?target' = length target" by simp
  with Cons.prems have "(offset + length b) + length (concat buffers) \<le> length ?target'"
    by simp
  from Cons.IH [OF this]
  have "copyBuffers buffers ?target' (offset + length b) =
      Inr (take (offset + length b) ?target' @ concat buffers @
           drop (offset + length b + length (concat buffers)) ?target')" .
  moreover from fits have le: "offset \<le> length target" by simp
  then have "take (offset + length b) ?target' = take offset target @ b"
    by simp
  moreover from le have "drop (offset + length b + length (concat buffers)) ?target' =
      drop (offset + length b + length (concat buffers)) target"
    by (simp add: add.commute add.left_commute)
  ultimately show ?case using set by (simp add: add.assoc)
qed

lemma combinePcm_concat: "combinePcm arrayBuffers = Inr (concat arrayBuffers)"
  using copyBuffers_fits [of 0 arrayBuffers "replicate (length (concat arrayBuffers)) 0"]
  by (simp add: combinePcm_def foldl_byteLength)

lemma drop_concat_take:
  "i < length xss \<Longrightarrow>
   take (length (xss ! i)) (drop (length (concat (take i xss))) (concat xss)) = xss ! i"
proof -
  assume "i < length xss"
  then have "xss = take i xss @ (xss ! i) # drop (Suc i) xss"
    by (simp add: id_take_nth_drop)
  then have "concat xss = concat (take i xss) @ (xss ! i) @ concat (drop (Suc i) xss)"
    by (metis concat.simps(2) concat_append)
  then show ?thesis by simp
qed

lemma processAudio_returns: "\<exists>r. processAudio p audioBase64Results = Some r"
  using createMp3Blob_returns [of p _ 24000 1]
  by (auto simp: processAudio_def split: sum.splits)

lemma processAudio_nothing: "processAudio p [] \<noteq> Some (Inl e)"
  by (simp add: processAudio_def combinePcm_def createMp3Blob_def newInt16Array_def
      encodeLoop.simps Let_def)

lemma finishAudio_returns: "\<exists>st'. finishAudio p st1 lang awaited = Some st'"
proof (cases awaited)
  case (Inl e)
  then show ?thesis by (simp add: finishAudio_def Let_def)
next
  case (Inr audioBase64Results)
  from processAudio_returns [of p audioBase64Results]
  obtain r where "processAudio p audioBase64Results = Some r" ..
  with Inr show ?thesis
    by (cases r) (simp_all add: finishAudio_def Let_def)
qed

lemma finishAudio_cases:
  assumes "finishAudio p st1 lang awaited = Some st2"
  shows "st2 = st1\<lparr>error := Some (js ''No se pudo generar el audio para este texto.''),
                   isGeneratingAudio := False, generationProgress := None\<rparr>
       \<or> (\<exists>mp3Blob. st2 = st1\<lparr>audioSrc := Some (createObjectURL p mp3Blob),
                                audioBlob := Some (mp3Blob, lang),
                                isGeneratingAudio := False, generationProgress := None\<rparr>)"
  using assms
  by (auto simp: finishAudio_def Let_def split: sum.splits option.splits)

lemma finishAudio_rejected:
  "finishAudio p st1 lang (Inl e) = Some st2 \<Longrightarrow>
   error st2 = Some (js ''No se pudo generar el audio para este texto.'')"
  by (auto simp: finishAudio_def Let_def)

lemma finishAudio_thrown:
  "finishAudio p st1 lang (Inr results) = Some st2 \<Longrightarrow> processAudio p results = Some (Inl e) \<Longrightarrow>
   error st2 = Some (js ''No se pudo generar el audio para este texto.'')"
  by (auto simp: finishAudio_def Let_def)

lemma finishAudio_message:
  assumes "finishAudio p st1 lang awaited = Some st2"
    and "error st1 = None" and "audioSrc st1 = None" and "audioBlob st1 = None"
  shows "error st2 \<noteq> None \<longrightarrow>
           error st2 = Some (js ''No se pudo generar el audio para este texto.'')
         \<and> audioSrc st2 = None \<and> audioBlob st2 = None"
proof -
  from finishAudio_cases [OF assms(1)]
  consider "st2 = st1\<lparr>error := Some (js ''No se pudo generar el audio para este texto.''),
                   isGeneratingAudio := False, generationProgress := None\<rparr>"
    | mp3Blob where "st2 = st1\<lparr>audioSrc := Some (createObjectURL p mp3Blob),
                                audioBlob := Some (mp3Blob, lang),
                                isGeneratingAudio := False, generationProgress := None\<rparr>"
    by blast
  then show ?thesis
  proof cases
    case 1
    with assms(3,4) show ?thesis by simp
  next
    case 2
    with assms(2) show ?thesis by simp
  qed
qed

section \<open>Properties of handleGenerateAudio\<close>

lemma handleGenerateAudio_guarded:
  assumes speak: "truthy (if lang = Es then lookupMode (analysisResults st) mode
                         else lookupMode (translatedResults st) mode) = Some textToSpeak"
    and ready: "isLameJsReady st"
  obtains (single) st2 where
      "length textToSpeak \<le> TTS_CHARACTER_LIMIT"
      "finishAudio p
         (st\<lparr>isGeneratingAudio := True, error := None, warning := None,
             audioSrc := None, audioBlob := None, generationProgress := None\<rparr>)
         lang (awaitOne (generateSpeech p textToSpeak lang)) = Some st2"
      "handleGenerateAudio p st mode lang =
         Some (st2, [textToSpeak], traceOf [generateSpeech p textToSpeak lang])"
  | (none) 
      "length textToSpeak > TTS_CHARACTER_LIMIT"
      "splitTextIntoChunks textToSpeak TTS_CHARACTER_LIMIT = Some []"
      "handleGenerateAudio p st mode lang =
         Some (st\<lparr>isGeneratingAudio := True, error := None, warning := None,
                   audioSrc := None, audioBlob := None, generationProgress := None,
                   warning := Some (js ''No se pudo procesar el texto para generar audio.''),
                   isGeneratingAudio := False, generationProgress := None\<rparr>, [], [])"
  | (split) chunks st2 where
      "length textToSpeak > TTS_CHARACTER_LIMIT"
      "splitTextIntoChunks textToSpeak TTS_CHARACTER_LIMIT = Some chunks"
      "chunks \<noteq> []"
      "finishAudio p
         (st\<lparr>isGeneratingAudio := True, error := None, warning := None,
             audioSrc := None, audioBlob := None, generationProgress := None\<rparr>)
         lang (promiseAll (map (\<lambda>chunk. generateSpeech p chunk lang) chunks)) = Some st2"
      "handleGenerateAudio p st mode lang =
         Some (st2, chunks, traceOf (map (\<lambda>chunk. generateSpeech p chunk lang) chunks))"
proof (cases "length textToSpeak \<le> TTS_CHARACTER_LIMIT")
  case True
  let ?st1 = "st\<lparr>isGeneratingAudio := True, error := None, warning := None,
             audioSrc := None, audioBlob := None, generationProgress := None\<rparr>"
  from finishAudio_returns [of p ?st1 lang "awaitOne (generateSpeech p textToSpeak lang)"]
  obtain st2 where fin: "finishAudio p ?st1 lang (awaitOne (generateSpeech p textToSpeak lang)) = Some st2" ..
  with True speak ready have "handleGenerateAudio p st mode lang =
         Some (st2, [textToSpeak], traceOf [generateSpeech p textToSpeak lang])"
    by (simp add: handleGenerateAudio_def Let_def)
  with True fin show ?thesis by (rule single)
next
  case False
  let ?st1 = "st\<lparr>isGeneratingAudio := True, error := None, warning := None,
             audioSrc := None, audioBlob := None, generationProgress := None\<rparr>"
  have "0 < TTS_CHARACTER_LIMIT" by (simp add: TTS_CHARACTER_LIMIT_def)
  from splitTextIntoChunks_returns [OF this, of textToSpeak]
  obtain chunks where chunks: "splitTextIntoChunks textToSpeak TTS_CHARACTER_LIMIT = Some chunks"
    by blast
  show ?thesis
  proof (cases "chunks = []")
    case True
    with False speak ready chunks have "handleGenerateAudio p st mode lang =
         Some (?st1\<lparr>warning := Some (js ''No se pudo procesar el texto para generar audio.''),
                   isGeneratingAudio := False, generationProgress := None\<rparr>, [], [])"
      by (simp add: handleGenerateAudio_def Let_def)
    with False chunks True show ?thesis by (intro none) simp_all
  next
    case nonempty: False
    from finishAudio_returns
    obtain st2 where fin: "finishAudio p ?st1 lang
        (promiseAll (map (\<lambda>chunk. generateSpeech p chunk lang) chunks)) = Some st2" ..
    with False speak ready chunks nonempty have "handleGenerateAudio p st mode lang =
         Some (st2, chunks, traceOf (map (\<lambda>chunk. generateSpeech p chunk lang) chunks))"
      by (simp add: handleGenerateAudio_def Let_def)
    with False chunks nonempty fin show ?thesis by (intro split) simp_all
  qed
qed

lemma handleGenerateAudio_single:
  assumes "truthy (if lang = Es then lookupMode (analysisResults st) mode
                   else lookupMode (translatedResults st) mode) = Some textToSpeak"
    and "isLameJsReady st"
    and "length textToSpeak \<le> TTS_CHARACTER_LIMIT"
  shows "\<exists>st' tr. handleGenerateAudio p st mode lang = Some (st', [textToSpeak], tr)"
  using assms(1,2)
proof (cases rule: handleGenerateAudio_guarded [where p = p])
  case (single st2)
  then show ?thesis by simp
next
  case none
  with assms(3) show ?thesis by simp
next
  case (split chunks st2)
  with assms(3) show ?thesis by simp
qed

lemma handleGenerateAudio_returns:
  "\<exists>st' texts tr. handleGenerateAudio p st mode lang = Some (st', texts, tr)
      \<and> (\<forall>t\<in>set texts. length t \<le> TTS_CHARACTER_LIMIT)"
proof (cases "truthy (if lang = Es then lookupMode (analysisResults st) mode
                      else lookupMode (translatedResults st) mode)")
  case None
  then show ?thesis by (simp add: handleGenerateAudio_def)
next
  case (Some textToSpeak)
  show ?thesis
  proof (cases "isLameJsReady st")
    case False
    with Some show ?thesis by (simp add: handleGenerateAudio_def)
  next
    case True
    from Some True show ?thesis
    proof (cases rule: handleGenerateAudio_guarded [where p = p])
      case (single st2)
      then show ?thesis by simp
    next
      case none
      then show ?thesis by simp
    next
      case (split chunks st2)
      have "0 < TTS_CHARACTER_LIMIT" by (simp add: TTS_CHARACTER_LIMIT_def)
      from splitTextIntoChunks_returns [OF this, of textToSpeak] split(2)
      have "\<forall>c\<in>set chunks. length c \<le> TTS_CHARACTER_LIMIT" by auto
      with split(5) show ?thesis by simp
    qed
  qed
qed

text \<open>
  What a run of \<open>handleGenerateAudio\<close> behind its two checks ends with: the awaited
  promises are those of the texts it has passed to \<open>generateSpeech\<close>.
\<close>

lemma handleGenerateAudio_outcome:
  assumes "truthy (if lang = Es then lookupMode (analysisResults st) mode
                   else lookupMode (translatedResults st) mode) = Some textToSpeak"
    and "isLameJsReady st"
  shows "\<exists>st' texts tr. handleGenerateAudio p st mode lang = Some (st', texts, tr)
     \<and> (\<forall>e. promiseAll (map (\<lambda>t. generateSpeech p t lang) texts) = Inl e \<longrightarrow>
           error st' = Some (js ''No se pudo generar el audio para este texto.''))
     \<and> (\<forall>e results. promiseAll (map (\<lambda>t. generateSpeech p t lang) texts) = Inr results
           \<and> processAudio p results = Some (Inl e) \<longrightarrow>
           error st' = Some (js ''No se pudo generar el audio para este texto.''))
     \<and> (error st' \<noteq> None \<longrightarrow>
           error st' = Some (js ''No se pudo generar el audio para este texto.'')
         \<and> audioSrc st' = None \<and> audioBlob st' = None)"
proof -
  let ?st1 = "st\<lparr>isGeneratingAudio := True, error := None, warning := None,
             audioSrc := None, audioBlob := None, generationProgress := None\<rparr>"
  have ended: "\<exists>st'. handleGenerateAudio p st mode lang = Some (st', texts, tr)
     \<and> (\<forall>e. promiseAll (map (\<lambda>t. generateSpeech p t lang) texts) = Inl e \<longrightarrow>
           error st' = Some (js ''No se pudo generar el audio para este texto.''))
     \<and> (\<forall>e results. promiseAll (map (\<lambda>t. generateSpeech p t lang) texts) = Inr results
           \<and> processAudio p results = Some (Inl e) \<longrightarrow>
           error st' = Some (js ''No se pudo generar el audio para este texto.''))
     \<and> (error st' \<noteq> None \<longrightarrow>
           error st' = Some (js ''No se pudo generar el audio para este texto.'')
         \<and> audioSrc st' = None \<and> audioBlob st' = None)"
    if fin: "finishAudio p ?st1 lang (promiseAll (map (\<lambda>t. generateSpeech p t lang) texts)) = Some st2"
      and run: "handleGenerateAudio p st mode lang = Some (st2, texts, tr)"
    for st2 texts tr
  proof -
    have "error st2 = Some (js ''No se pudo generar el audio para este texto.'')"
      if "promiseAll (map (\<lambda>t. generateSpeech p t lang) texts) = Inl e" for e
      using fin unfolding that by (rule finishAudio_rejected)
    moreover have "error st2 = Some (js ''No se pudo generar el audio para este texto.'')"
      if "promiseAll (map (\<lambda>t. generateSpeech p t lang) texts) = Inr results"
        and "processAudio p results = Some (Inl e)" for e results
      using fin that(2) unfolding that(1) by (rule finishAudio_thrown)
    moreover have "error st2 \<noteq> None \<longrightarrow>
           error st2 = Some (js ''No se pudo generar el audio para este texto.'')
         \<and> audioSrc st2 = None \<and> audioBlob st2 = None"
      by (rule finishAudio_message [OF fin]) simp_all
    ultimately show ?thesis using run by blast
  qed
  from assms show ?thesis
  proof (cases rule: handleGenerateAudio_guarded [where p = p])
    case (single st2)
    from single(2) have "finishAudio p ?st1 lang
        (promiseAll (map (\<lambda>t. generateSpeech p t lang) [textToSpeak])) = Some st2"
      by (simp add: promiseAll_single)
    from ended [OF this single(3)] show ?thesis by blast
  next
    case none
    have "promiseAll ([] :: jsstring promise list) = Inr []"
      by (simp add: promiseAll_def)
    with none(3) show ?thesis by (simp add: processAudio_nothing)
  next
    case (split chunks st2)
    from ended [OF split(4) split(5)] show ?thesis by blast
  qed
qed

text \<open>
  The same for every run: when a request is rejected, or decoding or encoding throws, the
  run ends with the message and without audio.
\<close>

lemma handleGenerateAudio_failure:
  "\<exists>st' texts tr. handleGenerateAudio p st mode lang = Some (st', texts, tr)
     \<and> (promiseAll (map (\<lambda>t. generateSpeech p t lang) texts) = Inl e
          \<or> promiseAll (map (\<lambda>t. generateSpeech p t lang) texts) = Inr results
            \<and> processAudio p results = Some (Inl e) \<longrightarrow>
           error st' = Some (js ''No se pudo generar el audio para este texto.'')
         \<and> audioSrc st' = None \<and> audioBlob st' = None)"
proof -
  have idle: "promiseAll (map (\<lambda>t. generateSpeech p t lang) []) = Inr []"
    by (simp add: promiseAll_def)
  show ?thesis
  proof (cases "truthy (if lang = Es then lookupMode (analysisResults st) mode
                        else lookupMode (translatedResults st) mode)")
    case None
    then have "\<exists>st'. handleGenerateAudio p st mode lang = Some (st', [], [])"
      by (simp add: handleGenerateAudio_def)
    with idle show ?thesis by (auto simp: processAudio_nothing)
  next
    case (Some textToSpeak)
    show ?thesis
    proof (cases "isLameJsReady st")
      case False
      with Some have "\<exists>st'. handleGenerateAudio p st mode lang = Some (st', [], [])"
        by (simp add: handleGenerateAudio_def)
      with idle show ?thesis by (auto simp: processAudio_nothing)
    next
      case True
      from handleGenerateAudio_outcome [OF Some True, of p]
      obtain st' texts tr where
        run: "handleGenerateAudio p st mode lang = Some (st', texts, tr)"
        and rejected: "\<forall>e. promiseAll (map (\<lambda>t. generateSpeech p t lang) texts) = Inl e \<longrightarrow>
           error st' = Some (js ''No se pudo generar el audio para este texto.'')"
        and thrown: "\<forall>e results. promiseAll (map (\<lambda>t. generateSpeech p t lang) texts) = Inr results
           \<and> processAudio p results = Some (Inl e) \<longrightarrow>
           error st' = Some (js ''No se pudo generar el audio para este texto.'')"
        and silent: "error st' \<noteq> None \<longrightarrow>
           error st' = Some (js ''No se pudo generar el audio para este texto.'')
         \<and> audioSrc st' = None \<and> audioBlob st' = None"
        by blast
      have "error st' = Some (js ''No se pudo generar el audio para este texto.'')
         \<and> audioSrc st' = None \<and> audioBlob st' = None"
        if "promiseAll (map (\<lambda>t. generateSpeech p t lang) texts) = Inl e
          \<or> promiseAll (map (\<lambda>t. generateSpeech p t lang) texts) = Inr results
            \<and> processAudio p results = Some (Inl e)"
      proof -
        from that rejected thrown
        have "error st' = Some (js ''No se pudo generar el audio para este texto.'')"
          by blast
        with silent show ?thesis by simp
      qed
      with run show ?thesis by blast
    qed
  qed
qed

lemma pending_generateSpeech:
  "length (pending (map (\<lambda>t. generateSpeech p t lang) texts)) =
     length (filter (\<lambda>t. cleanTextForSpeech p t \<noteq> []) texts)"
  by (induction texts) (simp_all add: generateSpeech_def Let_def)

lemma handleGenerateAudio_trace:
  "\<exists>st' texts. handleGenerateAudio p st mode lang =
      Some (st', texts, traceOf (map (\<lambda>t. generateSpeech p t lang) texts))"
proof (cases "truthy (if lang = Es then lookupMode (analysisResults st) mode
                      else lookupMode (translatedResults st) mode)")
  case None
  then show ?thesis by (simp add: handleGenerateAudio_def traceOf_def)
next
  case (Some textToSpeak)
  show ?thesis
  proof (cases "isLameJsReady st")
    case False
    with Some show ?thesis by (simp add: handleGenerateAudio_def traceOf_def)
  next
    case True
    from Some True show ?thesis
    proof (cases rule: handleGenerateAudio_guarded [where p = p])
      case (single st2)
      then show ?thesis by simp
    next
      case none
      then show ?thesis by (simp add: traceOf_def)
    next
      case (split chunks st2)
      then show ?thesis by simp
    qed
  qed
qed

text \<open>Before its two guards are passed the handler calls nothing.\<close>

lemma handleGenerateAudio_unguarded:
  assumes "truthy (if lang = Es then lookupMode (analysisResults st) mode
                   else lookupMode (translatedResults st) mode) = None
           \<or> \<not> isLameJsReady st"
  shows "\<exists>st'. handleGenerateAudio p st mode lang = Some (st', [], [])"
proof (cases "truthy (if lang = Es then lookupMode (analysisResults st) mode
                      else lookupMode (translatedResults st) mode)")
  case None
  then show ?thesis by (simp add: handleGenerateAudio_def)
next
  case (Some textToSpeak)
  with assms have "\<not> isLameJsReady st" by simp
  with Some show ?thesis by (simp add: handleGenerateAudio_def)
qed

text \<open>The calls of the handler behind its guards.\<close>

lemma handleGenerateAudio_calls:
  assumes speak: "truthy (if lang = Es then lookupMode (analysisResults st) mode
                   else lookupMode (translatedResults st) mode) = Some textToSpeak"
    and ready: "isLameJsReady st"
  shows "\<exists>st' texts tr. handleGenerateAudio p st mode lang = Some (st', texts, tr)
       \<and> (texts = [textToSpeak] \<longleftrightarrow> length textToSpeak \<le> TTS_CHARACTER_LIMIT)
       \<and> (TTS_CHARACTER_LIMIT < length textToSpeak \<longrightarrow>
            splitTextIntoChunks textToSpeak TTS_CHARACTER_LIMIT = Some texts)"
  using assms
proof (cases rule: handleGenerateAudio_guarded [where p = p])
  case (single st2)
  then show ?thesis by simp
next
  case none
  then show ?thesis by simp
next
  case (split chunks st2)
  have "0 < TTS_CHARACTER_LIMIT" by (simp add: TTS_CHARACTER_LIMIT_def)
  from splitTextIntoChunks_returns [OF this, of textToSpeak] split(2)
  have "\<forall>c\<in>set chunks. length c \<le> TTS_CHARACTER_LIMIT" by auto
  with split(1) have "chunks \<noteq> [textToSpeak]" by auto
  with split show ?thesis by simp
qed

text \<open>The requests that begin are those of the promises that sent one, in their order.\<close>

lemma begun_requested:
  "map Some (begun (traceOf ps)) = filter (\<lambda>r. r \<noteq> None) (map requested ps)"
proof -
  have "map Some (map snd (pending ps)) = filter (\<lambda>r. r \<noteq> None) (map requested ps)"
    by (induction ps) (simp_all split: option.splits)
  then show ?thesis by (simp only: begun_traceOf)
qed

text \<open>
  \<open>generateSpeech\<close> sends no request when the cleaned text is empty; otherwise its request
  has the cleaned text, in quotes, after the instruction.
\<close>

lemma generateSpeech_requested:
  "(requested (generateSpeech p t lang) = None) = (cleanTextForSpeech p t = [])"
  by (simp add: generateSpeech_def Let_def)

lemma generateSpeech_contents:
  assumes "requested (generateSpeech p t lang) = Some r"
  shows "\<exists>instruction. contents r =
      instruction @ [0x0A, 0x0A, 0x22] @ cleanTextForSpeech p t @ [0x22]"
proof (cases "cleanTextForSpeech p t = []")
  case True
  with assms show ?thesis by (simp add: generateSpeech_def Let_def)
next
  case False
  with assms have "contents r =
      (if lang = Es then
                  js ''Tu '' @ [0xFA] @
                    js ''nica tarea es leer en voz alta el siguiente texto de forma clara '' @
                    js ''y natural. No a'' @ [0xF1] @
                    js ''adas introducciones ni comentarios. Solo lee el texto proporcionado. '' @
                    js ''Texto a leer:''
                else
                  js ''Your only task is to read the following text aloud clearly and '' @
                    js ''naturally. Do not add any introductions or comments. Just read '' @
                    js ''the provided text. Text to read:'')
       @ [0x0A, 0x0A, 0x22] @ cleanTextForSpeech p t @ [0x22]"
    by (auto simp add: generateSpeech_def Let_def)
  then show ?thesis by blast
qed

section \<open>Properties of handleAnalysis and handleTranslate\<close>


lemma handleAnalysis_rejected:
  assumes "trim text \<noteq> []"
    and "promiseAll (map (\<lambda>mode. generateTextAnalysis p text mode) [Completo, Resumido, PuntosClave]) = Inl e"
  shows "fst (handleAnalysis p st text) =
     st\<lparr>isAnalyzing := True, error := None, warning := None, audioSrc := None,
        audioBlob := None, analysisResults := None, translatedResults := None,
        error := Some (analysisErrorMessage p e), isProcessed := False, isAnalyzing := False\<rparr>"
  using assms by (simp add: handleAnalysis_def Let_def)


lemma handleAnalysis_trace:
  "trim text \<noteq> [] \<Longrightarrow>
   snd (handleAnalysis p st text) =
     traceOf (map (\<lambda>mode. generateTextAnalysis p text mode) [Completo, Resumido, PuntosClave])"
  by (simp add: handleAnalysis_def Let_def)

lemma pending_generateTextAnalysis:
  "map snd (pending (map (\<lambda>mode. generateTextAnalysis p text mode) modes)) =
     map (\<lambda>mode. \<lparr>model = textModel,
                  contents = getAnalysisPrompt mode @ inicioDelTexto @ text @ finDelTexto,
                  voiceName = None\<rparr>) modes"
  by (induction modes) (simp_all add: generateTextAnalysis_def Let_def)

lemma handleTranslate_rejected:
  assumes "truthy (lookupMode (analysisResults st) mode) = Some spanishText"
    and "result (translateText p spanishText) = Inl e"
  shows "fst (handleTranslate p st mode) =
     st\<lparr>isTranslating := True, error := None,
        error := Some (js ''No se pudo traducir el texto.''), isTranslating := False\<rparr>"
  using assms by (simp add: handleTranslate_def Let_def)

lemma handleTranslate_trace:
  "snd (handleTranslate p st mode) = [] \<or>
   (\<exists>r. snd (handleTranslate p st mode) = [RequestBegin r, RequestEnd r])"
  by (cases "truthy (lookupMode (analysisResults st) mode)")
    (simp_all add: handleTranslate_def Let_def traceOf_def translateText_def)

section \<open>Runs in the example environment\<close>

lemmas split_eval =
  splitTextIntoChunks_def matchSentences.simps matchSentenceAt_def matchTerminators_def
  js_def isTerminator_def trim_def isWhiteSpace_def chunkWhile.simps substring_def Let_def

lemma split_example:
  "splitTextIntoChunks (js ''abcd. xy'') 3 = Some [js ''abc'', js ''d.'']"
  by (simp add: split_eval)

lemma speak_example:
  "truthy (lookupMode (analysisResults analysedState) Resumido) = Some (js ''Hola.'')"
  by (simp add: truthy_def lookupMode_def analysedState_def initialState_def js_def)

lemma audio_example:
  "map_option (fst \<circ> snd) (handleGenerateAudio samplePlatform analysedState Resumido Es)
     = Some [js ''Hola.'']"
proof -
  have ready: "isLameJsReady analysedState"
    by (simp add: analysedState_def)
  from speak_example have "truthy (if Es = Es then lookupMode (analysisResults analysedState) Resumido
      else lookupMode (translatedResults analysedState) Resumido) = Some (js ''Hola.'')"
    by simp
  then show ?thesis using ready
  proof (cases rule: handleGenerateAudio_guarded [where p = samplePlatform])
    case (single st2)
    then show ?thesis by simp
  next
    case none
    then show ?thesis by (simp add: TTS_CHARACTER_LIMIT_def js_def)
  next
    case (split chunks st2)
    then show ?thesis by (simp add: TTS_CHARACTER_LIMIT_def js_def)
  qed
qed

lemma createMp3Blob_example:
  "createMp3Blob samplePlatform [1, 2, 3, 4] 24000 1 =
     Some (Inr \<lparr>blobParts = [[1, 3]], blobType = js ''audio/mpeg''\<rparr>)"
  by (simp add: createMp3Blob_def newInt16Array_def encodeLoop.simps subarray_def
      sampleBlockSize_def samplePlatform_def Let_def)

lemma takeWhile_replicate_append:
  "P x \<Longrightarrow> takeWhile P (replicate n x @ ys) = replicate n x @ takeWhile P ys"
  by (induction n) simp_all

lemma matchSentences_two:
  "matchSentences (replicate (Suc k) 0x61 @ js ''.b.'') = [replicate (Suc k) 0x61 @ js ''.'', js ''b.'']"
proof -
  let ?s = "replicate (Suc k) (0x61 :: jschar) @ js ''.b.''"
  have run: "takeWhile (\<lambda>c. \<not> isTerminator c) ?s = replicate (Suc k) 0x61"
    by (simp add: takeWhile_replicate_append isTerminator_def js_def del: replicate_Suc)
  have "matchTerminators (drop (Suc k) ?s) = Some (js ''.'', js ''b.'')"
    by (simp add: matchTerminators_def isTerminator_def js_def Let_def del: replicate_Suc)
  then have "backtrack (Suc k) ?s = Some (take (Suc k) ?s @ js ''.'', js ''b.'')"
    by (simp del: replicate_Suc)
  then have "matchSentenceAt ?s = Some (replicate (Suc k) 0x61 @ js ''.'', js ''b.'')"
    unfolding matchSentenceAt_def run by (simp del: replicate_Suc backtrack.simps)
  moreover have "?s = 0x61 # (replicate k 0x61 @ js ''.b.'')" by simp
  ultimately have "regexExec ?s = Some (replicate (Suc k) 0x61 @ js ''.'', js ''b.'')"
    by (simp del: replicate_Suc)
  moreover have "matchSentences (js ''b.'') = [js ''b.'']"
    by (simp add: matchSentences.simps matchSentenceAt_def matchTerminators_def js_def Let_def
        isTerminator_def)
  ultimately show ?thesis
    by (subst matchSentences.simps) (simp del: replicate_Suc)
qed

lemma trim_limit: "trim (replicate (Suc k) 0x61 @ js ''.'') = replicate (Suc k) 0x61 @ js ''.''"
  by (simp add: trim_def isWhiteSpace_def js_def)

lemma trim_b: "trim (js ''b.'') = js ''b.''"
  by (simp add: trim_def isWhiteSpace_def js_def)

lemma split_at_limit:
  "splitTextIntoChunks (replicate (Suc k) 0x61 @ js ''.b.'') (Suc (Suc k)) =
     Some [[], replicate (Suc k) 0x61 @ js ''.'', js ''b.'']"
proof -
  let ?A = "replicate (Suc k) (0x61 :: jschar) @ js ''.''"
  have "forSentences (Suc (Suc k)) [?A, js ''b.''] ([], []) = Some ([[], ?A], js ''b.'')"
    by (simp add: trim_limit trim_b Let_def del: replicate_Suc) (simp add: js_def)
  then show ?thesis
    by (simp add: splitTextIntoChunks_def matchSentences_two Let_def del: replicate_Suc)
      (simp add: js_def)
qed

lemma split_limitSentence:
  "splitTextIntoChunks (limitSentence @ js ''b.'') TTS_CHARACTER_LIMIT =
     Some [[], limitSentence, js ''b.'']"
proof -
  have "limitSentence @ js ''b.'' = replicate (Suc 4798) 0x61 @ js ''.b.''"
    by (simp add: limitSentence_def js_def)
  moreover have "limitSentence = replicate (Suc 4798) 0x61 @ js ''.''"
    by (simp add: limitSentence_def)
  moreover have "TTS_CHARACTER_LIMIT = Suc (Suc 4798)"
    by (simp add: TTS_CHARACTER_LIMIT_def)
  ultimately show ?thesis using split_at_limit [of 4798] by (simp only:)
qed

lemma limitSentence_not_empty: "limitSentence \<noteq> []"
  by (simp add: limitSentence_def js_def)

lemma promiseAll_empty_chunk:
  "promiseAll (map (\<lambda>chunk. generateSpeech samplePlatform chunk Es) [[], limitSentence, js ''b.''])
     = Inl (ErrorObject (js ''Text is empty after cleaning, cannot generate speech.''))"
  by (simp add: promiseAll_def generateSpeech_def samplePlatform_def sampleReply_def truthy_def
      limitSentence_not_empty Let_def)

lemma longState_run:
  "map_option (\<lambda>r. (error (fst r), audioSrc (fst r), fst (snd r)))
     (handleGenerateAudio samplePlatform longState Resumido Es) =
   Some (Some (js ''No se pudo generar el audio para este texto.''), None,
         [[], limitSentence, js ''b.''])"
proof -
  have ready: "isLameJsReady longState"
    by (simp add: longState_def analysedState_def)
  have "truthy (if Es = Es then lookupMode (analysisResults longState) Resumido
      else lookupMode (translatedResults longState) Resumido) = Some (limitSentence @ js ''b.'')"
    by (simp add: truthy_def lookupMode_def longState_def limitSentence_not_empty)
  then show ?thesis using ready
  proof (cases rule: handleGenerateAudio_guarded [where p = samplePlatform])
    case (single st2)
    then show ?thesis by (simp add: TTS_CHARACTER_LIMIT_def limitSentence_def js_def)
  next
    case none
    then show ?thesis by (simp add: split_limitSentence)
  next
    case (split chunks st2)
    from split(2) have chunks: "chunks = [[], limitSentence, js ''b.'']"
      by (simp add: split_limitSentence)
    from split(4) have "st2 = longState\<lparr>isGeneratingAudio := True, error := None, warning := None,
             audioSrc := None, audioBlob := None, generationProgress := None,
             error := Some (js ''No se pudo generar el audio para este texto.''),
             isGeneratingAudio := False, generationProgress := None\<rparr>"
      unfolding chunks promiseAll_empty_chunk by (simp add: finishAudio_def Let_def)
    with split(5) chunks show ?thesis by simp
  qed
qed

lemma notReady_example:
  "truthy (lookupMode (analysisResults notReadyState) Resumido) = Some (js ''Hola.'')
   \<and> \<not> isLameJsReady notReadyState"
  by (simp add: truthy_def lookupMode_def notReadyState_def analysedState_def initialState_def js_def)

lemma longState_example:
  "truthy (lookupMode (analysisResults longState) Resumido) = Some (limitSentence @ js ''b.'')
   \<and> isLameJsReady longState"
  by (simp add: truthy_def lookupMode_def longState_def analysedState_def limitSentence_not_empty)


lemma trim_Hola: "trim (js ''Hola.'') \<noteq> []"
  by (simp add: trim_def isWhiteSpace_def js_def)

lemma failing_analysis:
  "promiseAll (map (\<lambda>mode. generateTextAnalysis failingPlatform (js ''Hola.'') mode)
     [Completo, Resumido, PuntosClave]) = Inl (ErrorObject (js ''quota exceeded''))"
  by (simp add: promiseAll_def generateTextAnalysis_def failingPlatform_def samplePlatform_def Let_def)

lemma failing_message:
  "analysisErrorMessage failingPlatform (ErrorObject (js ''quota exceeded'')) =
     js ''Ocurri'' @ [0xF3] @ js '' un error al procesar el documento. Por favor, int'' @ [0xE9] @
     js ''ntalo de nuevo.''"
  by (simp add: analysisErrorMessage_def message_def truthy_def stringIncludes_def
      failingPlatform_def samplePlatform_def js_def upt_conv_Cons)

lemma failing_translation:
  "result (translateText failingPlatform (js ''Hola.'')) = Inl (ErrorObject (js ''quota exceeded''))"
  by (simp add: translateText_def failingPlatform_def samplePlatform_def Let_def)

lemma failing_speech:
  "promiseAll (map (\<lambda>t. generateSpeech failingPlatform t Es) [js ''Hola.''])
     = Inl (ErrorObject (js ''quota exceeded''))"
  by (simp add: promiseAll_def generateSpeech_def failingPlatform_def samplePlatform_def Let_def js_def)

lemma analysis_trace_example:
  "inFlight 0 (snd (handleAnalysis samplePlatform initialState (js ''Hola.''))) = [1, 2, 3, 2, 1, 0]"
  by (simp add: handleAnalysis_trace [OF trim_Hola] traceOf_def generateTextAnalysis_def
      samplePlatform_def sampleReply_def Let_def)

text \<open>
  The chunks are built from the matches of the pattern alone: what follows the last
  terminator is in no match and in no chunk, while a text without any terminator goes
  to the loop that cuts the whole text.
\<close>

lemma unmatched_text_dropped:
  "splitTextIntoChunks (js ''Hi. tail without end'') 4800 = Some [js ''Hi.'']"
  by (simp add: split_eval)



text \<open>The cleaning function of the service module leaves nothing of \<open>**\<close>.\<close>

lemma clean_stars: "cleanTextForSpeech_src (js ''**'') = []"
  by (simp add: cleanTextForSpeech_src_def replace_def headerPattern_def blockquotePattern_def
      linkPattern_def rulePattern_def bulletPattern_def emphasisPattern_def newlinesPattern_def
      spacesPattern_def repeated_def literal_def accept_def endOfLine_def trim_def js_def
      isWhiteSpace_def isLineTerminator_def Let_def)

lemma stars_example:
  "truthy (lookupMode (analysisResults starsState) Resumido) = Some (js ''**'')
   \<and> isLameJsReady starsState"
  by (simp add: truthy_def lookupMode_def starsState_def analysedState_def js_def)

lemma stars_run:
  "map_option (fst \<circ> snd) (handleGenerateAudio servicePlatform starsState Resumido Es)
     = Some [js ''**'']
   \<and> map_option (begun \<circ> snd \<circ> snd) (handleGenerateAudio servicePlatform starsState Resumido Es)
     = Some []"
proof -
  from stars_example
  have speak: "truthy (if Es = Es then lookupMode (analysisResults starsState) Resumido
      else lookupMode (translatedResults starsState) Resumido) = Some (js ''**'')"
    and ready: "isLameJsReady starsState"
    by simp_all
  have none: "requested (generateSpeech servicePlatform (js ''**'') Es) = None"
    by (simp add: generateSpeech_requested servicePlatform_def clean_stars)
  from speak ready show ?thesis
  proof (cases rule: handleGenerateAudio_guarded [where p = servicePlatform])
    case (single st2)
    then show ?thesis by (simp add: begun_traceOf none)
  next
    case none
    then show ?thesis by (simp add: TTS_CHARACTER_LIMIT_def js_def)
  next
    case (split chunks st2)
    then show ?thesis by (simp add: TTS_CHARACTER_LIMIT_def js_def)
  qed
qed

lemma notReady_run:
  "map_option snd (handleGenerateAudio samplePlatform notReadyState Resumido Es) = Some ([], [])"
  using notReady_example by (simp add: handleGenerateAudio_def)

lemma audio_trace_example:
  "map_option (inFlight 0 \<circ> snd \<circ> snd) (handleGenerateAudio samplePlatform longState Resumido Es)
     = Some [1, 2, 1, 0]"
proof -
  from handleGenerateAudio_trace [of samplePlatform longState Resumido Es]
  obtain st' texts where run: "handleGenerateAudio samplePlatform longState Resumido Es =
      Some (st', texts, traceOf (map (\<lambda>t. generateSpeech samplePlatform t Es) texts))"
    by blast
  with longState_run have texts: "texts = [[], limitSentence, js ''b.'']" by simp
  have "inFlight 0 (traceOf (map (\<lambda>t. generateSpeech samplePlatform t Es)
      [[], limitSentence, js ''b.''])) = [1, 2, 1, 0]"
    by (simp add: traceOf_def generateSpeech_def samplePlatform_def sampleReply_def
        limitSentence_not_empty js_def Let_def)
  with run texts show ?thesis by simp
qed


section \<open>The claims\<close>

text \<open>
  C1. Whatever the text, and for every \<open>maxLength\<close> of at least one, \<open>splitTextIntoChunks\<close>
  returns, and every chunk it returns has at most \<open>maxLength\<close> code units. So every text
  that \<open>handleGenerateAudio\<close> passes to \<open>generateSpeech\<close> has at most 4800 code units.
\<close>

theorem chunks_within_limit:
  assumes "1 \<le> maxLength"
  shows "(\<exists>chunks. splitTextIntoChunks text maxLength = Some chunks
            \<and> (\<forall>c\<in>set chunks. length c \<le> maxLength))
       \<and> (\<exists>st' texts tr. handleGenerateAudio p st mode lang = Some (st', texts, tr)
            \<and> (\<forall>t\<in>set texts. length t \<le> 4800))"
proof
  from assms have "0 < maxLength" by simp
  from splitTextIntoChunks_returns [OF this, of "text"]
  show "\<exists>chunks. splitTextIntoChunks text maxLength = Some chunks
            \<and> (\<forall>c\<in>set chunks. length c \<le> maxLength)"
    by blast
next
  from handleGenerateAudio_returns [of p st mode lang]
  show "\<exists>st' texts tr. handleGenerateAudio p st mode lang = Some (st', texts, tr)
            \<and> (\<forall>t\<in>set texts. length t \<le> 4800)"
    by (simp add: TTS_CHARACTER_LIMIT_def)
qed

theorem chunks_within_limit_witness:
  "(1::nat) \<le> 3
   \<and> splitTextIntoChunks (js ''abcd. xy'') 3 = Some [js ''abc'', js ''d.'']
   \<and> length (js ''abc'') \<le> 3 \<and> length (js ''d.'') \<le> 3
   \<and> map_option (fst \<circ> snd) (handleGenerateAudio samplePlatform analysedState Resumido Es)
       = Some [js ''Hola.'']
   \<and> length (js ''Hola.'') \<le> 4800"
  using chunks_within_limit [of 3 "js ''abcd. xy''" samplePlatform analysedState Resumido Es]
    split_example audio_example
  by (simp add: js_def)




text \<open>
  C3. The PCM assembly gives the buffers one after the other: the combined buffer has the
  sum of their lengths, and buffer \<open>i\<close> stands in it, unchanged, at the offset that is the
  total length of the buffers before it.
\<close>

theorem combinePcm_preserves:
  "\<exists>combinedPcm. combinePcm arrayBuffers = Inr combinedPcm
     \<and> length combinedPcm = sum_list (map length arrayBuffers)
     \<and> (\<forall>i<length arrayBuffers.
          take (length (arrayBuffers ! i))
            (drop (sum_list (map length (take i arrayBuffers))) combinedPcm) = arrayBuffers ! i)"
proof -
  have "combinePcm arrayBuffers = Inr (concat arrayBuffers)"
    by (rule combinePcm_concat)
  moreover have "length (concat arrayBuffers) = sum_list (map length arrayBuffers)"
    by (simp add: length_concat)
  moreover have "take (length (arrayBuffers ! i))
      (drop (sum_list (map length (take i arrayBuffers))) (concat arrayBuffers)) = arrayBuffers ! i"
    if "i < length arrayBuffers" for i
    using drop_concat_take [OF that] by (simp add: length_concat)
  ultimately show ?thesis by blast
qed

theorem combinePcm_preserves_witness:
  "combinePcm [[1, 2], [], [3, 4, 5]] = Inr [1, 2, 3, 4, 5]
   \<and> length [1, 2, 3, 4, 5 :: 8 word] = sum_list (map length [[1, 2], [], [3, 4, 5 :: 8 word]])
   \<and> (2::nat) < length [[1, 2], [], [3, 4, 5 :: 8 word]]
   \<and> sum_list (map length (take 2 [[1, 2], [], [3, 4, 5 :: 8 word]])) = 2
   \<and> take (length ([[1, 2], [], [3, 4, 5 :: 8 word]] ! 2)) (drop 2 [1, 2, 3, 4, 5 :: 8 word])
        = [[1, 2], [], [3, 4, 5]] ! 2"
  using combinePcm_preserves [of "[[1, 2], [], [3, 4, 5]]"]
  by (simp add: combinePcm_def typedArraySet_def)

text \<open>
  C4, as stated, fails. While the encoder library is not loaded the handler shows a
  message and returns: a text of five code units brings no call and no request. And a
  call of \<open>generateSpeech\<close> is not always a request: for the text \<open>**\<close>, of two code units,
  the one call throws before it sends anything, since nothing is left of the text after
  cleaning.
\<close>

theorem short_text_without_request:
  "lookupMode (analysisResults notReadyState) Resumido = Some (js ''Hola.'')
   \<and> length (js ''Hola.'') \<le> 4800
   \<and> map_option snd (handleGenerateAudio samplePlatform notReadyState Resumido Es)
       = Some ([], [])
   \<and> lookupMode (analysisResults starsState) Resumido = Some (js ''**'')
   \<and> isLameJsReady starsState
   \<and> length (js ''**'') \<le> 4800
   \<and> cleanTextForSpeech servicePlatform (js ''**'') = []
   \<and> map_option (fst \<circ> snd) (handleGenerateAudio servicePlatform starsState Resumido Es)
       = Some [js ''**'']
   \<and> map_option (begun \<circ> snd \<circ> snd) (handleGenerateAudio servicePlatform starsState Resumido Es)
       = Some []"
proof -
  have "lookupMode (analysisResults notReadyState) Resumido = Some (js ''Hola.'')"
    "lookupMode (analysisResults starsState) Resumido = Some (js ''**'')"
    "isLameJsReady starsState"
    "length (js ''Hola.'') \<le> 4800" "length (js ''**'') \<le> 4800"
    by (simp_all add: lookupMode_def notReadyState_def starsState_def analysedState_def js_def)
  moreover have "cleanTextForSpeech servicePlatform (js ''**'') = []"
    by (simp add: servicePlatform_def clean_stars)
  ultimately show ?thesis using notReady_run stars_run by simp
qed

text \<open>
  C4, amended. The handler returns. When there is a text to speak (it is there and not
  empty) and the encoder library is loaded, it has called \<open>generateSpeech\<close> exactly once,
  with the whole text, if and only if the text has at most 4800 code units; for a longer
  text the calls are the chunks of \<open>splitTextIntoChunks(text, 4800)\<close>, one call each, in
  their order. When there is no text to speak or the library is not loaded, there is no
  call and no request. The requests of the run are those of the calls, in the order of
  the calls: a call sends one request, which has the cleaned text of the call, unless the
  cleaned text is empty, and then it sends none.
\<close>

theorem speech_requests:
  "\<exists>st' texts tr. handleGenerateAudio p st mode lang = Some (st', texts, tr)
     \<and> (truthy (if lang = Es then lookupMode (analysisResults st) mode
                else lookupMode (translatedResults st) mode) = Some textToSpeak
        \<and> isLameJsReady st \<longrightarrow>
          (texts = [textToSpeak] \<longleftrightarrow> length textToSpeak \<le> 4800)
        \<and> (4800 < length textToSpeak \<longrightarrow>
             splitTextIntoChunks textToSpeak 4800 = Some texts))
     \<and> (truthy (if lang = Es then lookupMode (analysisResults st) mode
                else lookupMode (translatedResults st) mode) = None
        \<or> \<not> isLameJsReady st \<longrightarrow> texts = [] \<and> tr = [])
     \<and> map Some (begun tr) =
         filter (\<lambda>r. r \<noteq> None) (map (\<lambda>t. requested (generateSpeech p t lang)) texts)
     \<and> (\<forall>t. (requested (generateSpeech p t lang) = None) = (cleanTextForSpeech p t = []))
     \<and> (\<forall>t r. requested (generateSpeech p t lang) = Some r \<longrightarrow>
           (\<exists>instruction. contents r =
              instruction @ [0x0A, 0x0A, 0x22] @ cleanTextForSpeech p t @ [0x22]))"
proof -
  let ?sel = "truthy (if lang = Es then lookupMode (analysisResults st) mode
                else lookupMode (translatedResults st) mode)"
  from handleGenerateAudio_trace [of p st mode lang]
  obtain st' texts where run: "handleGenerateAudio p st mode lang =
      Some (st', texts, traceOf (map (\<lambda>t. generateSpeech p t lang) texts))"
    by blast
  let ?tr = "traceOf (map (\<lambda>t. generateSpeech p t lang) texts)"
  have guarded: "(texts = [textToSpeak] \<longleftrightarrow> length textToSpeak \<le> 4800)
        \<and> (4800 < length textToSpeak \<longrightarrow>
             splitTextIntoChunks textToSpeak 4800 = Some texts)"
    if "?sel = Some textToSpeak" and "isLameJsReady st"
    using handleGenerateAudio_calls [OF that, of p] run
    by (auto simp add: TTS_CHARACTER_LIMIT_def)
  have unguarded: "texts = [] \<and> ?tr = []" if "?sel = None \<or> \<not> isLameJsReady st"
    using handleGenerateAudio_unguarded [OF that, of p] run by auto
  have reqs: "map Some (begun ?tr) =
      filter (\<lambda>r. r \<noteq> None) (map (\<lambda>t. requested (generateSpeech p t lang)) texts)"
    using begun_requested [of "map (\<lambda>t. generateSpeech p t lang) texts"]
    by (simp add: comp_def)
  have sent: "\<forall>t. (requested (generateSpeech p t lang) = None) = (cleanTextForSpeech p t = [])"
    by (simp add: generateSpeech_requested)
  have cont: "\<forall>t r. requested (generateSpeech p t lang) = Some r \<longrightarrow>
           (\<exists>instruction. contents r =
              instruction @ [0x0A, 0x0A, 0x22] @ cleanTextForSpeech p t @ [0x22])"
    using generateSpeech_contents by blast
  from run guarded unguarded reqs sent cont show ?thesis by blast
qed


theorem speech_requests_witness:
  "truthy (lookupMode (analysisResults analysedState) Resumido) = Some (js ''Hola.'')
   \<and> isLameJsReady analysedState
   \<and> length (js ''Hola.'') \<le> 4800
   \<and> map_option (fst \<circ> snd) (handleGenerateAudio samplePlatform analysedState Resumido Es)
       = Some [js ''Hola.'']
   \<and> map_option (length \<circ> begun \<circ> snd \<circ> snd)
        (handleGenerateAudio samplePlatform analysedState Resumido Es) = Some 1
   \<and> truthy (lookupMode (analysisResults longState) Resumido) = Some (limitSentence @ js ''b.'')
   \<and> isLameJsReady longState
   \<and> 4800 < length (limitSentence @ js ''b.'')
   \<and> splitTextIntoChunks (limitSentence @ js ''b.'') 4800 = Some [[], limitSentence, js ''b.'']
   \<and> map_option (fst \<circ> snd) (handleGenerateAudio samplePlatform longState Resumido Es)
       = Some [[], limitSentence, js ''b.'']
   \<and> map_option (length \<circ> begun \<circ> snd \<circ> snd)
        (handleGenerateAudio samplePlatform longState Resumido Es) = Some 2
   \<and> \<not> isLameJsReady notReadyState
   \<and> map_option snd (handleGenerateAudio samplePlatform notReadyState Resumido Es)
       = Some ([], [])
   \<and> (\<exists>r. requested (generateSpeech samplePlatform (js ''Hola.'') Es) = Some r
        \<and> drop (length (contents r) - 7) (contents r) = [0x22] @ js ''Hola.'' @ [0x22])"
proof -
  have a: "truthy (if Es = Es then lookupMode (analysisResults analysedState) Resumido
      else lookupMode (translatedResults analysedState) Resumido) = Some (js ''Hola.'')"
    using speak_example by simp
  have b: "isLameJsReady analysedState" by (simp add: analysedState_def)
  have c: "truthy (if Es = Es then lookupMode (analysisResults longState) Resumido
      else lookupMode (translatedResults longState) Resumido) = Some (limitSentence @ js ''b.'')"
    using longState_example by simp
  have d: "isLameJsReady longState" using longState_example by simp
  have e: "length (js ''Hola.'') = 5" by (simp add: js_def)
  have f: "length (limitSentence @ js ''b.'') = 4802" by (simp add: limitSentence_def js_def)
  have g: "\<not> isLameJsReady notReadyState" using notReady_example by simp
  have clean: "cleanTextForSpeech samplePlatform t = t" for t
    by (simp add: samplePlatform_def)
  have hola: "js ''Hola.'' \<noteq> []" and bdot: "js ''b.'' \<noteq> []" by (simp_all add: js_def)
  note split = split_limitSentence [unfolded TTS_CHARACTER_LIMIT_def]

  from speech_requests [of samplePlatform analysedState Resumido Es "js ''Hola.''"]
  obtain st1 texts1 tr1 where
    run1: "handleGenerateAudio samplePlatform analysedState Resumido Es = Some (st1, texts1, tr1)"
    and calls1: "texts1 = [js ''Hola.''] \<longleftrightarrow> length (js ''Hola.'') \<le> 4800"
    and reqs1: "map Some (begun tr1) = filter (\<lambda>r. r \<noteq> None)
        (map (\<lambda>t. requested (generateSpeech samplePlatform t Es)) texts1)"
    and sent: "\<forall>t. (requested (generateSpeech samplePlatform t Es) = None) =
        (cleanTextForSpeech samplePlatform t = [])"
    and cont: "\<forall>t r. requested (generateSpeech samplePlatform t Es) = Some r \<longrightarrow>
           (\<exists>instruction. contents r =
              instruction @ [0x0A, 0x0A, 0x22] @ cleanTextForSpeech samplePlatform t @ [0x22])"
    using a b by auto
  from calls1 e have texts1: "texts1 = [js ''Hola.'']" by simp
  from sent hola obtain r where r: "requested (generateSpeech samplePlatform (js ''Hola.'') Es) = Some r"
    by (auto simp add: clean)
  with cont obtain instruction where
    "contents r = instruction @ [0x0A, 0x0A, 0x22] @ js ''Hola.'' @ [0x22]"
    by (auto simp add: clean)
  then have tail: "drop (length (contents r) - 7) (contents r) = [0x22] @ js ''Hola.'' @ [0x22]"
    by (simp add: js_def)
  from reqs1 r have "map Some (begun tr1) = [Some r]" unfolding texts1 by simp
  then have one: "length (begun tr1) = 1"
    by (metis length_map length_Cons list.size(3) One_nat_def)

  from speech_requests [of samplePlatform longState Resumido Es "limitSentence @ js ''b.''"]
  obtain st2 texts2 tr2 where
    run2: "handleGenerateAudio samplePlatform longState Resumido Es = Some (st2, texts2, tr2)"
    and calls2: "4800 < length (limitSentence @ js ''b.'') \<longrightarrow>
        splitTextIntoChunks (limitSentence @ js ''b.'') 4800 = Some texts2"
    and reqs2: "map Some (begun tr2) = filter (\<lambda>r. r \<noteq> None)
        (map (\<lambda>t. requested (generateSpeech samplePlatform t Es)) texts2)"
    using c d by auto
  from calls2 f split have texts2: "texts2 = [[], limitSentence, js ''b.'']" by simp
  from sent have "length (filter (\<lambda>r. r \<noteq> None)
        (map (\<lambda>t. requested (generateSpeech samplePlatform t Es)) [[], limitSentence, js ''b.''])) = 2"
    by (simp add: clean limitSentence_not_empty bdot)
  with reqs2 have two: "length (begun tr2) = 2"
    unfolding texts2 by (metis length_map)

  from speech_requests [of samplePlatform notReadyState Resumido Es "js ''Hola.''"] g
  have run3: "map_option snd (handleGenerateAudio samplePlatform notReadyState Resumido Es)
       = Some ([], [])"
    by auto

  from speak_example b e run1 texts1 one longState_example f split run2 texts2 two g run3 r tail
  show ?thesis by simp
qed

text \<open>
  C5. A run of \<open>handleAnalysis\<close> in which a request is rejected ends with the message for
  the rejection, no analysis results and \<open>isProcessed\<close> false. A run of \<open>handleTranslate\<close>
  in which the request is rejected ends with its message and the translations as they
  were. Every run of \<open>handleGenerateAudio\<close> ends, and when one of its requests is
  rejected, or decoding or encoding throws, it ends with its message and with \<open>audioSrc\<close>
  and \<open>audioBlob\<close> null.
\<close>

theorem failures_caught:
  "(trim text \<noteq> [] \<and>
    promiseAll (map (\<lambda>mode. generateTextAnalysis p text mode) [Completo, Resumido, PuntosClave])
      = Inl e \<longrightarrow>
      error (fst (handleAnalysis p st text)) = Some (analysisErrorMessage p e)
    \<and> analysisResults (fst (handleAnalysis p st text)) = None
    \<and> \<not> isProcessed (fst (handleAnalysis p st text)))
 \<and> (truthy (lookupMode (analysisResults st) mode) = Some spanishText \<and>
    result (translateText p spanishText) = Inl e \<longrightarrow>
      error (fst (handleTranslate p st mode)) = Some (js ''No se pudo traducir el texto.'')
    \<and> translatedResults (fst (handleTranslate p st mode)) = translatedResults st)
 \<and> (\<exists>st' texts tr. handleGenerateAudio p st mode lang = Some (st', texts, tr)
      \<and> (promiseAll (map (\<lambda>t. generateSpeech p t lang) texts) = Inl e
           \<or> promiseAll (map (\<lambda>t. generateSpeech p t lang) texts) = Inr results
             \<and> processAudio p results = Some (Inl e) \<longrightarrow>
            error st' = Some (js ''No se pudo generar el audio para este texto.'')
          \<and> audioSrc st' = None \<and> audioBlob st' = None))"
proof (intro conjI impI)
  assume a: "trim text \<noteq> [] \<and>
    promiseAll (map (\<lambda>mode. generateTextAnalysis p text mode) [Completo, Resumido, PuntosClave])
      = Inl e"
  then have st': "fst (handleAnalysis p st text) =
     st\<lparr>isAnalyzing := True, error := None, warning := None, audioSrc := None,
        audioBlob := None, analysisResults := None, translatedResults := None,
        error := Some (analysisErrorMessage p e), isProcessed := False, isAnalyzing := False\<rparr>"
    by (intro handleAnalysis_rejected) simp_all
  show "error (fst (handleAnalysis p st text)) = Some (analysisErrorMessage p e)"
    and "analysisResults (fst (handleAnalysis p st text)) = None"
    and "\<not> isProcessed (fst (handleAnalysis p st text))"
    unfolding st' by simp_all
next
  assume b: "truthy (lookupMode (analysisResults st) mode) = Some spanishText \<and>
    result (translateText p spanishText) = Inl e"
  then have st': "fst (handleTranslate p st mode) =
     st\<lparr>isTranslating := True, error := None,
        error := Some (js ''No se pudo traducir el texto.''), isTranslating := False\<rparr>"
    using handleTranslate_rejected [of st mode spanishText p e] by simp
  show "error (fst (handleTranslate p st mode)) = Some (js ''No se pudo traducir el texto.'')"
    and "translatedResults (fst (handleTranslate p st mode)) = translatedResults st"
    unfolding st' by simp_all
next
  show "\<exists>st' texts tr. handleGenerateAudio p st mode lang = Some (st', texts, tr)
      \<and> (promiseAll (map (\<lambda>t. generateSpeech p t lang) texts) = Inl e
           \<or> promiseAll (map (\<lambda>t. generateSpeech p t lang) texts) = Inr results
             \<and> processAudio p results = Some (Inl e) \<longrightarrow>
            error st' = Some (js ''No se pudo generar el audio para este texto.'')
          \<and> audioSrc st' = None \<and> audioBlob st' = None)"
    by (rule handleGenerateAudio_failure)
qed

theorem failures_caught_witness:
  "trim (js ''Hola.'') \<noteq> []
   \<and> promiseAll (map (\<lambda>mode. generateTextAnalysis failingPlatform (js ''Hola.'') mode)
        [Completo, Resumido, PuntosClave]) = Inl (ErrorObject (js ''quota exceeded''))
   \<and> analysisResults analysedState \<noteq> None
   \<and> analysisResults (fst (handleAnalysis failingPlatform analysedState (js ''Hola.''))) = None
   \<and> \<not> isProcessed (fst (handleAnalysis failingPlatform analysedState (js ''Hola.'')))
   \<and> error (fst (handleAnalysis failingPlatform analysedState (js ''Hola.''))) =
        Some (js ''Ocurri'' @ [0xF3] @ js '' un error al procesar el documento. Por favor, int'' @
              [0xE9] @ js ''ntalo de nuevo.'')
   \<and> truthy (lookupMode (analysisResults analysedState) Resumido) = Some (js ''Hola.'')
   \<and> result (translateText failingPlatform (js ''Hola.'')) = Inl (ErrorObject (js ''quota exceeded''))
   \<and> error (fst (handleTranslate failingPlatform analysedState Resumido)) =
        Some (js ''No se pudo traducir el texto.'')
   \<and> translatedResults (fst (handleTranslate failingPlatform analysedState Resumido)) = None
   \<and> isLameJsReady analysedState
   \<and> map_option (\<lambda>r. (error (fst r), audioSrc (fst r), audioBlob (fst r), fst (snd r)))
        (handleGenerateAudio failingPlatform analysedState Resumido Es) =
      Some (Some (js ''No se pudo generar el audio para este texto.''), None, None, [js ''Hola.''])"
proof -
  have ready: "isLameJsReady analysedState" and had: "analysisResults analysedState \<noteq> None"
    and none: "translatedResults analysedState = None"
    by (simp_all add: analysedState_def initialState_def)
  have speak: "truthy (if Es = Es then lookupMode (analysisResults analysedState) Resumido
      else lookupMode (translatedResults analysedState) Resumido) = Some (js ''Hola.'')"
    using speak_example by simp
  note caught = failures_caught [of "js ''Hola.''" failingPlatform
      "ErrorObject (js ''quota exceeded'')" analysedState Resumido "js ''Hola.''" Es "[]"]
  from caught trim_Hola failing_analysis
  have a: "error (fst (handleAnalysis failingPlatform analysedState (js ''Hola.''))) =
        Some (analysisErrorMessage failingPlatform (ErrorObject (js ''quota exceeded'')))
    \<and> analysisResults (fst (handleAnalysis failingPlatform analysedState (js ''Hola.''))) = None
    \<and> \<not> isProcessed (fst (handleAnalysis failingPlatform analysedState (js ''Hola.'')))"
    by blast
  from caught speak_example failing_translation
  have b: "error (fst (handleTranslate failingPlatform analysedState Resumido)) =
        Some (js ''No se pudo traducir el texto.'')
    \<and> translatedResults (fst (handleTranslate failingPlatform analysedState Resumido)) =
        translatedResults analysedState"
    by blast
  from caught
  obtain st' texts tr where
    run: "handleGenerateAudio failingPlatform analysedState Resumido Es = Some (st', texts, tr)"
    and rejected: "promiseAll (map (\<lambda>t. generateSpeech failingPlatform t Es) texts) =
        Inl (ErrorObject (js ''quota exceeded'')) \<longrightarrow>
        error st' = Some (js ''No se pudo generar el audio para este texto.'')
        \<and> audioSrc st' = None \<and> audioBlob st' = None"
    by blast
  have "length (js ''Hola.'') \<le> TTS_CHARACTER_LIMIT"
    by (simp add: TTS_CHARACTER_LIMIT_def js_def)
  from handleGenerateAudio_single [OF speak ready this, of failingPlatform] run
  have texts: "texts = [js ''Hola.'']" by auto
  from rejected failing_speech
  have c: "error st' = Some (js ''No se pudo generar el audio para este texto.'')
        \<and> audioSrc st' = None \<and> audioBlob st' = None"
    unfolding texts by blast
  from c texts run have d: "map_option (\<lambda>r. (error (fst r), audioSrc (fst r), audioBlob (fst r), fst (snd r)))
        (handleGenerateAudio failingPlatform analysedState Resumido Es) =
      Some (Some (js ''No se pudo generar el audio para este texto.''), None, None, [js ''Hola.''])"
    by simp
  from a have a': "error (fst (handleAnalysis failingPlatform analysedState (js ''Hola.''))) =
        Some (js ''Ocurri'' @ [0xF3] @ js '' un error al procesar el documento. Por favor, int'' @
              [0xE9] @ js ''ntalo de nuevo.'')"
    unfolding failing_message by blast
  from b none
  have b': "translatedResults (fst (handleTranslate failingPlatform analysedState Resumido)) = None"
    by simp
  from trim_Hola failing_analysis had a a' speak_example failing_translation b b' ready d
  show ?thesis by blast
qed



text \<open>
  C7. A file whose type is neither \<open>text/plain\<close> nor \<open>application/pdf\<close> leaves the document
  text and the file name empty and sets the message; so only a file of one of the two
  types can give a document text.
\<close>

theorem other_file_types_rejected:
  "(fileType f \<noteq> js ''text/plain'' \<and> fileType f \<noteq> js ''application/pdf'' \<longrightarrow>
      error (handleFileChange p st (Some f)) = Some (js ''Por favor, sube un archivo .txt o .pdf.'')
    \<and> documentText (handleFileChange p st (Some f)) = []
    \<and> fileName (handleFileChange p st (Some f)) = [])
   \<and> (documentText (handleFileChange p st (Some f)) \<noteq> [] \<longrightarrow>
        fileType f = js ''text/plain'' \<or> fileType f = js ''application/pdf'')"
proof -
  have "error (handleFileChange p st (Some f)) = Some (js ''Por favor, sube un archivo .txt o .pdf.'')
    \<and> documentText (handleFileChange p st (Some f)) = []
    \<and> fileName (handleFileChange p st (Some f)) = []"
    if "fileType f \<noteq> js ''text/plain''" and "fileType f \<noteq> js ''application/pdf''"
    using that
    by (simp add: handleFileChange_def clearFileInput_def Let_def split: option.splits)
  then show ?thesis by blast
qed

theorem other_file_types_rejected_witness:
  "fileType \<lparr>fileType = js ''image/png'', name = js ''foto.png''\<rparr> \<noteq> js ''text/plain''
   \<and> fileType \<lparr>fileType = js ''image/png'', name = js ''foto.png''\<rparr> \<noteq> js ''application/pdf''
   \<and> error (handleFileChange samplePlatform initialState
        (Some \<lparr>fileType = js ''image/png'', name = js ''foto.png''\<rparr>))
       = Some (js ''Por favor, sube un archivo .txt o .pdf.'')
   \<and> documentText (handleFileChange samplePlatform initialState
        (Some \<lparr>fileType = js ''text/plain'', name = js ''nota.txt''\<rparr>)) = js ''Hola.''
   \<and> js ''Hola.'' \<noteq> []"
  using other_file_types_rejected [of "\<lparr>fileType = js ''image/png'', name = js ''foto.png''\<rparr>"
      samplePlatform initialState]
    other_file_types_rejected [of "\<lparr>fileType = js ''text/plain'', name = js ''nota.txt''\<rparr>"
      samplePlatform initialState]
  by (simp add: handleFileChange_def samplePlatform_def js_def)

text \<open>
  C8. With \<open>maxLength\<close> of at least one \<open>splitTextIntoChunks\<close> returns, and \<open>createMp3Blob\<close>
  returns (a blob or a \<open>RangeError\<close>) for every input. Their loops return from every
  loop state, and the chunking loop adds at most one piece for each code unit that is
  left.
\<close>

theorem split_and_encode_terminate:
  assumes "1 \<le> maxLength"
  shows "(\<exists>chunks. splitTextIntoChunks text maxLength = Some chunks)
       \<and> (\<exists>r. createMp3Blob p pcmData sampleRate numChannels = Some r)
       \<and> (\<exists>ps. chunkWhile text maxLength i acc = Some (acc @ ps)
              \<and> length ps \<le> length text - i)
       \<and> (\<exists>r. encodeLoop p pcm j enc mp3Data = Some r)"
proof -
  from assms have pos: "0 < maxLength" by simp
  from splitTextIntoChunks_returns [OF pos, of "text"]
  have "\<exists>chunks. splitTextIntoChunks text maxLength = Some chunks" by blast
  moreover have "\<exists>ps. chunkWhile text maxLength i acc = Some (acc @ ps)
      \<and> length ps \<le> length text - i"
  proof -
    from chunkWhile_returns [OF pos, of "text" i acc]
    obtain ps where run: "chunkWhile text maxLength i acc = Some (acc @ ps)"
      and full: "\<forall>p\<in>set ps. p \<noteq> [] \<and> length p \<le> maxLength"
      and cat: "concat ps = drop i text"
      by blast
    from full have "length ps \<le> length (concat ps)" by (intro length_le_concat) blast
    with cat have "length ps \<le> length text - i" by simp
    with run show ?thesis by blast
  qed
  ultimately show ?thesis
    using createMp3Blob_returns [of p pcmData sampleRate numChannels]
      encodeLoop_returns [of p pcm j enc mp3Data]
    by blast
qed

theorem split_and_encode_terminate_witness:
  "(1::nat) \<le> 3
   \<and> splitTextIntoChunks (js ''abcd. xy'') 3 = Some [js ''abc'', js ''d.'']
   \<and> createMp3Blob samplePlatform [1, 2, 3, 4] 24000 1 =
       Some (Inr \<lparr>blobParts = [[1, 3]], blobType = js ''audio/mpeg''\<rparr>)
   \<and> chunkWhile (js ''abcd'') 3 0 [] = Some [js ''abc'', js ''d'']
   \<and> encodeLoop samplePlatform [1, 2] 0 0 [] = Some ([[1, 2]], 2)"
  using split_and_encode_terminate [of 3 "js ''abcd. xy''" samplePlatform "[1, 2, 3, 4]" 24000 1 0 "[]"
      "[1, 2]" 0 0 "[]"]
    split_example createMp3Blob_example
  by (simp add: chunkWhile.simps substring_def js_def encodeLoop.simps subarray_def
      sampleBlockSize_def samplePlatform_def Let_def)

text \<open>
  C9, as stated, fails: in a run of \<open>handleAnalysis\<close> the second request begins while the
  first is in flight, and the third while two are; and in a run of \<open>handleGenerateAudio\<close>
  on a text of three chunks, of which the first is empty, the request for the third chunk
  begins while that for the second is in flight.
\<close>

theorem analysis_requests_overlap:
  "inFlight 0 (snd (handleAnalysis samplePlatform initialState (js ''Hola.''))) = [1, 2, 3, 2, 1, 0]
   \<and> \<not> sequential (snd (handleAnalysis samplePlatform initialState (js ''Hola.'')))
   \<and> map_option (inFlight 0 \<circ> snd \<circ> snd)
        (handleGenerateAudio samplePlatform longState Resumido Es) = Some [1, 2, 1, 0]"
  by (simp add: sequential_def analysis_trace_example audio_trace_example)

text \<open>
  C9, amended. The requests of one run begin together. A run of \<open>handleAnalysis\<close> on a
  text that is not blank begins its three requests before any of them ends: after the
  third has begun three are in flight, and the run is not sequential. A run of
  \<open>handleGenerateAudio\<close> returns, and it begins one request for every text it passes to
  \<open>generateSpeech\<close> that is not empty after cleaning, all before any of them ends; it is
  sequential if and only if that is at most one request. A run of \<open>handleTranslate\<close>
  makes at most one request, and is sequential.
\<close>

theorem requests_begin_together:
  "(trim text \<noteq> [] \<longrightarrow>
      (\<exists>ends. snd (handleAnalysis p st text) =
          map RequestBegin (begun (snd (handleAnalysis p st text))) @ map RequestEnd ends)
    \<and> length (begun (snd (handleAnalysis p st text))) = 3
    \<and> take 3 (inFlight 0 (snd (handleAnalysis p st text))) = [1, 2, 3]
    \<and> \<not> sequential (snd (handleAnalysis p st text)))
 \<and> (\<exists>st' texts tr. handleGenerateAudio p st mode lang = Some (st', texts, tr)
      \<and> (\<exists>ends. tr = map RequestBegin (begun tr) @ map RequestEnd ends)
      \<and> length (begun tr) = length (filter (\<lambda>t. cleanTextForSpeech p t \<noteq> []) texts)
      \<and> (sequential tr \<longleftrightarrow> length (begun tr) \<le> 1))
 \<and> length (begun (snd (handleTranslate p st mode))) \<le> 1
 \<and> sequential (snd (handleTranslate p st mode))"
proof (intro conjI impI)
  let ?ps = "map (\<lambda>mode. generateTextAnalysis p text mode) [Completo, Resumido, PuntosClave]"
  assume nonblank: "trim text \<noteq> []"
  have tr: "snd (handleAnalysis p st text) = traceOf ?ps"
    by (rule handleAnalysis_trace [OF nonblank])
  from traceOf_shape [of ?ps] obtain ends where
    shape: "traceOf ?ps = map RequestBegin (map snd (pending ?ps)) @ map RequestEnd ends"
    by blast
  then show "\<exists>ends. snd (handleAnalysis p st text) =
          map RequestBegin (begun (snd (handleAnalysis p st text))) @ map RequestEnd ends"
    unfolding tr begun_traceOf by blast
  show three: "length (begun (snd (handleAnalysis p st text))) = 3"
    unfolding tr begun_traceOf pending_generateTextAnalysis by simp
  have "take 3 (inFlight 0 (map RequestBegin rs @ es)) = [1, 2, 3]" if "length rs = 3"
    for rs :: "request list" and es
  proof -
    from that obtain r1 r2 r3 where "rs = [r1, r2, r3]"
      by (cases rs; cases "tl rs"; cases "tl (tl rs)") auto
    then show ?thesis by (simp add: numeral_3_eq_3)
  qed
  moreover from three have "length (map snd (pending ?ps)) = 3"
    unfolding tr begun_traceOf .
  ultimately have "take 3 (inFlight 0
      (map RequestBegin (map snd (pending ?ps)) @ map RequestEnd ends)) = [1, 2, 3]" .
  then show "take 3 (inFlight 0 (snd (handleAnalysis p st text))) = [1, 2, 3]"
    unfolding tr shape .
  from three have "2 \<le> length (map snd (pending ?ps))"
    unfolding tr begun_traceOf by simp
  with shape show "\<not> sequential (snd (handleAnalysis p st text))"
    unfolding tr using not_sequential by metis
next
  from handleGenerateAudio_trace [of p st mode lang]
  obtain st' texts where run: "handleGenerateAudio p st mode lang =
      Some (st', texts, traceOf (map (\<lambda>t. generateSpeech p t lang) texts))"
    by blast
  let ?ps = "map (\<lambda>t. generateSpeech p t lang) texts"
  from traceOf_shape [of ?ps]
  have shape: "\<exists>ends. traceOf ?ps = map RequestBegin (begun (traceOf ?ps)) @ map RequestEnd ends"
    unfolding begun_traceOf by blast
  moreover have "length (begun (traceOf ?ps)) =
      length (filter (\<lambda>t. cleanTextForSpeech p t \<noteq> []) texts)"
    unfolding begun_traceOf using pending_generateSpeech [of p lang texts] by simp
  moreover from shape have "sequential (traceOf ?ps) \<longleftrightarrow> length (begun (traceOf ?ps)) \<le> 1"
    by (metis sequential_iff)
  ultimately show "\<exists>st' texts tr. handleGenerateAudio p st mode lang = Some (st', texts, tr)
      \<and> (\<exists>ends. tr = map RequestBegin (begun tr) @ map RequestEnd ends)
      \<and> length (begun tr) = length (filter (\<lambda>t. cleanTextForSpeech p t \<noteq> []) texts)
      \<and> (sequential tr \<longleftrightarrow> length (begun tr) \<le> 1)"
    using run by blast
next
  from handleTranslate_trace [of p st mode]
  show "length (begun (snd (handleTranslate p st mode))) \<le> 1"
    by auto
next
  from handleTranslate_trace [of p st mode]
  show "sequential (snd (handleTranslate p st mode))"
    by (auto simp: sequential_def)
qed

theorem requests_begin_together_witness:
  "trim (js ''Hola.'') \<noteq> []
   \<and> length (begun (snd (handleAnalysis samplePlatform initialState (js ''Hola.'')))) = 3
   \<and> inFlight 0 (snd (handleAnalysis samplePlatform initialState (js ''Hola.''))) = [1, 2, 3, 2, 1, 0]
   \<and> \<not> sequential (snd (handleAnalysis samplePlatform initialState (js ''Hola.'')))
   \<and> sequential (snd (handleTranslate samplePlatform analysedState Resumido))
   \<and> map_option (\<lambda>r. (fst (snd r), length (begun (snd (snd r))), sequential (snd (snd r))))
        (handleGenerateAudio samplePlatform longState Resumido Es) =
      Some ([[], limitSentence, js ''b.''], 2, False)"
proof -
  from requests_begin_together [of "js ''Hola.''" samplePlatform longState Resumido Es]
  obtain st' texts tr where
    run: "handleGenerateAudio samplePlatform longState Resumido Es = Some (st', texts, tr)"
    and count: "length (begun tr) =
        length (filter (\<lambda>t. cleanTextForSpeech samplePlatform t \<noteq> []) texts)"
    and seq: "sequential tr \<longleftrightarrow> length (begun tr) \<le> 1"
    by blast
  from longState_run run have texts: "texts = [[], limitSentence, js ''b.'']" by simp
  from count have two: "length (begun tr) = 2"
    unfolding texts by (simp add: samplePlatform_def limitSentence_not_empty js_def)
  with seq have "\<not> sequential tr" by simp
  with run texts two
  have "map_option (\<lambda>r. (fst (snd r), length (begun (snd (snd r))), sequential (snd (snd r))))
        (handleGenerateAudio samplePlatform longState Resumido Es) =
      Some ([[], limitSentence, js ''b.''], 2, False)"
    by simp
  with requests_begin_together [of "js ''Hola.''" samplePlatform initialState Resumido Es]
    requests_begin_together [of "js ''Hola.''" samplePlatform analysedState Resumido Es]
    trim_Hola analysis_trace_example
  show ?thesis by blast
qed

text \<open>
  C10. The code at inputs with a sentence of exactly \<open>maxLength\<close> code units: the first
  chunk is the empty string. With the limit of 4800 the handler passes it to
  \<open>generateSpeech\<close>, and the run ends with the error message and no audio.
\<close>

theorem empty_chunk_returned:
  "splitTextIntoChunks (js ''ab.'') 3 = Some [[], js ''ab.'']
   \<and> length (limitSentence @ js ''b.'') = 4802
   \<and> splitTextIntoChunks (limitSentence @ js ''b.'') 4800 = Some [[], limitSentence, js ''b.'']
   \<and> map_option (\<lambda>r. (error (fst r), audioSrc (fst r), fst (snd r)))
        (handleGenerateAudio samplePlatform longState Resumido Es) =
      Some (Some (js ''No se pudo generar el audio para este texto.''), None,
            [[], limitSentence, js ''b.''])"
proof -
  have "splitTextIntoChunks (js ''ab.'') 3 = Some [[], js ''ab.'']"
    by (simp add: split_eval)
  moreover have "length (limitSentence @ js ''b.'') = 4802"
    by (simp add: limitSentence_def js_def)
  moreover have "splitTextIntoChunks (limitSentence @ js ''b.'') 4800 =
      Some [[], limitSentence, js ''b.'']"
    using split_limitSentence by (simp add: TTS_CHARACTER_LIMIT_def)
  ultimately show ?thesis using longState_run by simp
qed

end
